theory Spec2Isabelle
  imports Main "HOL-Library.Word"
begin

section \<open>Package deep: a difference-reporting deep comparison\<close>

text \<open>
  The package has one source file, \<^verbatim>\<open>deep.go\<close>. Its function \<^verbatim>\<open>Equal\<close> walks two
  values through Go's \<^verbatim>\<open>reflect\<close> package. This theory embeds the part of
  \<^verbatim>\<open>reflect\<close> that \<^verbatim>\<open>deep.go\<close> calls, then the functions of \<^verbatim>\<open>deep.go\<close> themselves,
  and proves properties of them.
\<close>

subsection \<open>Run-time values as \<^verbatim>\<open>reflect\<close> sees them\<close>

text \<open>
  Pointers, maps and slices refer to memory, so a value can reach itself. Memory is
  therefore explicit: an address is a number, \<open>0\<close> is nil.
\<close>

type_synonym addr = nat

text \<open>\<^verbatim>\<open>reflect.StructField\<close>, the three members that matter here.\<close>

datatype StructField = StructField (Name: string) (PkgPath: string) (Anonymous: bool)

text \<open>
  \<^verbatim>\<open>reflect.Type\<close>. Go compares types by identity; \<open>type_id\<close> is that identity,
  \<open>type_String\<close> is what \<^verbatim>\<open>Type.String()\<close> prints (not unique among types),
  \<open>type_fields\<close> are the fields of a struct type in declaration order and
  \<open>type_Key\<close> is the key type of a map type.
\<close>

datatype rtype =
  RType (type_id: nat) (type_String: string) (type_fields: "StructField list")
    (type_Key: "rtype option")

text \<open>
  \<^verbatim>\<open>reflect.Kind\<close>, each name with a \<open>K\<close> appended. \<open>IntK\<close> stands for the five
  kinds Int, Int8, Int16, Int32, Int64, \<open>UintK\<close> for Uint, Uint8, Uint16, Uint32,
  Uint64, \<open>FloatK\<close> for Float32, Float64 and \<open>ComplexK\<close> for Complex64, Complex128:
  \<^verbatim>\<open>deep.go\<close> and the accessors of \<^verbatim>\<open>reflect.Value\<close> treat the members of each group
  alike.
\<close>

datatype kind = InvalidK | BoolK | IntK | UintK | UintptrK | FloatK | ComplexK | ArrayK
  | ChanK | FuncK | InterfaceK | MapK | PtrK | SliceK | StringK | StructK | UnsafePointerK

text \<open>
  The data a \<^verbatim>\<open>reflect.Value\<close> holds. Every constructor carries the value's type.
  \<^item> a float is the IEEE-754 bit pattern of the \<^verbatim>\<open>float64\<close> that \<^verbatim>\<open>Value.Float()\<close> returns;
  \<^item> a struct holds its fields inline;
  \<^item> a map, a pointer, a channel, a function and an unsafe pointer are an address;
  \<^item> a slice is the address of its first element and its length;
  \<^item> an interface holds a concrete value or nothing.
\<close>

datatype rdata =
    BoolD rtype bool
  | IntD rtype int
  | UintD rtype nat
  | UintptrD rtype nat
  | FloatD rtype "64 word"
  | ComplexD rtype "64 word" "64 word"
  | StringD rtype string
  | StructD rtype "rdata list"
  | ArrayD rtype "rdata list"
  | MapD rtype addr
  | SliceD rtype addr nat
  | PtrD rtype addr
  | IfaceD rtype "rdata option"
  | ChanD rtype addr nat
  | FuncD rtype addr
  | UnsafePointerD rtype addr

text \<open>
  \<^verbatim>\<open>reflect\<close> marks a value reached through an unexported struct field read-only:
  \<open>EmbedRO\<close> for an unexported embedded field, \<open>StickyRO\<close> for any other unexported
  field and for what is reached from a read-only value by an index, a key or out of an
  interface. The exported fields of an \<open>EmbedRO\<close> struct are not read-only.
\<close>

datatype roflag = Exported | EmbedRO | StickyRO

text \<open>A \<^verbatim>\<open>reflect.Value\<close>; \<open>Zero\<close> is the zero Value, for which \<^verbatim>\<open>IsValid()\<close> is false.\<close>

datatype Value = Zero | Val roflag rdata

text \<open>A call that Go would abort with a run-time panic returns \<open>Inl\<close> of the panic.\<close>

datatype panic = Panic string

text \<open>What calling a method named \<^verbatim>\<open>Equal\<close> by reflection may do.\<close>

datatype call_result = Returns bool | Panics

text \<open>
  What lies outside \<^verbatim>\<open>deep.go\<close> and outside the two values themselves:
  \<^item> memory: the target of a pointer, the elements found from a slice's first-element
    address, the entries of a map in the order \<^verbatim>\<open>MapKeys\<close> returns them;
  \<^item> the program's methods: for a type whose method set has a method named \<^verbatim>\<open>Equal\<close>,
    what \<^verbatim>\<open>eqFunc.Call([]reflect.Value{b})\<close> followed by \<^verbatim>\<open>retVals[0].Bool()\<close> does
    (\<open>Panics\<close> covers a wrong signature as well as a panic in the method's body);
  \<^item> package \<^verbatim>\<open>fmt\<close>: the verbs \<^verbatim>\<open>%v\<close> and \<^verbatim>\<open>%s\<close> at a \<^verbatim>\<open>reflect.Value\<close> and \<^verbatim>\<open>%v\<close> at
    a \<^verbatim>\<open>float64\<close>.
  Methods are assumed to return and to leave memory alone.
\<close>

record world =
  deref :: "addr \<Rightarrow> rdata"
  array_at :: "addr \<Rightarrow> nat \<Rightarrow> rdata"
  map_at :: "addr \<Rightarrow> (rdata \<times> rdata) list"
  method_Equal :: "rtype \<Rightarrow> (rdata \<Rightarrow> rdata \<Rightarrow> call_result) option"
  fmt_v_Value :: "Value \<Rightarrow> string"
  fmt_s_Value :: "Value \<Rightarrow> string"
  fmt_v_float64 :: "64 word \<Rightarrow> string"

subsection \<open>The methods of \<^verbatim>\<open>reflect.Value\<close> that \<^verbatim>\<open>deep.go\<close> calls\<close>

fun dtype :: "rdata \<Rightarrow> rtype" where
  "dtype (BoolD t _) = t"
| "dtype (IntD t _) = t"
| "dtype (UintD t _) = t"
| "dtype (UintptrD t _) = t"
| "dtype (FloatD t _) = t"
| "dtype (ComplexD t _ _) = t"
| "dtype (StringD t _) = t"
| "dtype (StructD t _) = t"
| "dtype (ArrayD t _) = t"
| "dtype (MapD t _) = t"
| "dtype (SliceD t _ _) = t"
| "dtype (PtrD t _) = t"
| "dtype (IfaceD t _) = t"
| "dtype (ChanD t _ _) = t"
| "dtype (FuncD t _) = t"
| "dtype (UnsafePointerD t _) = t"

fun dkind :: "rdata \<Rightarrow> kind" where
  "dkind (BoolD _ _) = BoolK"
| "dkind (IntD _ _) = IntK"
| "dkind (UintD _ _) = UintK"
| "dkind (UintptrD _ _) = UintptrK"
| "dkind (FloatD _ _) = FloatK"
| "dkind (ComplexD _ _ _) = ComplexK"
| "dkind (StringD _ _) = StringK"
| "dkind (StructD _ _) = StructK"
| "dkind (ArrayD _ _) = ArrayK"
| "dkind (MapD _ _) = MapK"
| "dkind (SliceD _ _ _) = SliceK"
| "dkind (PtrD _ _) = PtrK"
| "dkind (IfaceD _ _) = InterfaceK"
| "dkind (ChanD _ _ _) = ChanK"
| "dkind (FuncD _ _) = FuncK"
| "dkind (UnsafePointerD _ _) = UnsafePointerK"

fun IsValid :: "Value \<Rightarrow> bool" where
  "IsValid Zero = False"
| "IsValid (Val _ _) = True"

text \<open>\<^verbatim>\<open>Value.Type()\<close> panics on the zero Value; \<^verbatim>\<open>Value.Kind()\<close> does not.\<close>

fun Type :: "Value \<Rightarrow> panic + rtype" where
  "Type Zero = Inl (Panic ''reflect: call of reflect.Value.Type on zero Value'')"
| "Type (Val _ d) = Inr (dtype d)"

fun Kind :: "Value \<Rightarrow> kind" where
  "Kind Zero = InvalidK"
| "Kind (Val _ d) = dkind d"

text \<open>\<open>flag.ro()\<close>: what a value reached from this one inherits.\<close>

fun ro :: "roflag \<Rightarrow> roflag" where
  "ro Exported = Exported"
| "ro _ = StickyRO"

text \<open>
  \<^verbatim>\<open>Value.Elem()\<close>: the target of a pointer, which keeps the pointer's flag, or the
  content of an interface.
\<close>

fun Elem :: "world \<Rightarrow> Value \<Rightarrow> panic + Value" where
  "Elem w (Val f (PtrD _ p)) = Inr (if p = 0 then Zero else Val f (deref w p))"
| "Elem w (Val f (IfaceD _ x)) = Inr (case x of None \<Rightarrow> Zero | Some d \<Rightarrow> Val (ro f) d)"
| "Elem w _ = Inl (Panic ''reflect: call of reflect.Value.Elem on a value that is no pointer or interface'')"

text \<open>
  \<^verbatim>\<open>Value.MethodByName("Equal")\<close>: the zero Value when the type has no such method;
  finding a method on a nil interface value panics.
\<close>

fun MethodByName_Equal :: "world \<Rightarrow> Value \<Rightarrow> panic + (rdata \<Rightarrow> rdata \<Rightarrow> call_result) option" where
  "MethodByName_Equal w Zero = Inl (Panic ''reflect: call of reflect.Value.MethodByName on zero Value'')"
| "MethodByName_Equal w (Val f d) =
     (case method_Equal w (dtype d) of
        None \<Rightarrow> Inr None
      | Some m \<Rightarrow> (case d of
            IfaceD _ None \<Rightarrow> Inl (Panic ''reflect: Method on nil interface value'')
          | _ \<Rightarrow> Inr (Some m)))"

text \<open>
  \<^verbatim>\<open>eqFunc.Call([]reflect.Value{b})\<close> and \<^verbatim>\<open>retVals[0].Bool()\<close>. \<^verbatim>\<open>Call\<close> panics when the
  receiver or the argument was obtained through an unexported field.
\<close>

fun Call_Equal :: "(rdata \<Rightarrow> rdata \<Rightarrow> call_result) \<Rightarrow> Value \<Rightarrow> Value \<Rightarrow> panic + bool" where
  "Call_Equal m (Val Exported x) (Val Exported y) =
     (case m x y of Returns r \<Rightarrow> Inr r | Panics \<Rightarrow> Inl (Panic ''reflect: Call of method Equal''))"
| "Call_Equal m _ _ = Inl (Panic ''reflect: Call using value obtained using unexported field'')"

fun NumField :: "Value \<Rightarrow> panic + nat" where
  "NumField (Val _ (StructD _ fs)) = Inr (length fs)"
| "NumField _ = Inl (Panic ''reflect: call of reflect.Value.NumField on a value that is no struct'')"

text \<open>\<^verbatim>\<open>Type.Field(i)\<close> and \<^verbatim>\<open>Value.Field(i)\<close>; both panic out of range.\<close>

definition Type_Field :: "rtype \<Rightarrow> nat \<Rightarrow> panic + StructField" where
  "Type_Field t i =
     (if i < length (type_fields t) then Inr (type_fields t ! i)
      else Inl (Panic ''reflect: Field index out of bounds''))"

fun Field :: "Value \<Rightarrow> nat \<Rightarrow> panic + Value" where
  "Field (Val f (StructD t fs)) i =
     (if i < length fs \<and> i < length (type_fields t) then
        Inr (Val (if f = StickyRO then StickyRO
                  else if PkgPath (type_fields t ! i) \<noteq> [] then
                    (if Anonymous (type_fields t ! i) then EmbedRO else StickyRO)
                  else Exported)
                 (fs ! i))
      else Inl (Panic ''reflect: Field index out of range''))"
| "Field _ i = Inl (Panic ''reflect: call of reflect.Value.Field on a value that is no struct'')"

text \<open>\<^verbatim>\<open>Value.IsNil()\<close> and \<^verbatim>\<open>Value.Pointer()\<close> panic on kinds that cannot be nil.\<close>

fun IsNil :: "Value \<Rightarrow> panic + bool" where
  "IsNil (Val _ (MapD _ p)) = Inr (p = 0)"
| "IsNil (Val _ (SliceD _ p _)) = Inr (p = 0)"
| "IsNil (Val _ (PtrD _ p)) = Inr (p = 0)"
| "IsNil (Val _ (ChanD _ p _)) = Inr (p = 0)"
| "IsNil (Val _ (FuncD _ p)) = Inr (p = 0)"
| "IsNil (Val _ (UnsafePointerD _ p)) = Inr (p = 0)"
| "IsNil (Val _ (IfaceD _ x)) = Inr (x = None)"
| "IsNil _ = Inl (Panic ''reflect: call of reflect.Value.IsNil on a value that cannot be nil'')"

fun Pointer :: "Value \<Rightarrow> panic + addr" where
  "Pointer (Val _ (MapD _ p)) = Inr p"
| "Pointer (Val _ (SliceD _ p _)) = Inr p"
| "Pointer (Val _ (PtrD _ p)) = Inr p"
| "Pointer (Val _ (ChanD _ p _)) = Inr p"
| "Pointer (Val _ (FuncD _ p)) = Inr p"
| "Pointer (Val _ (UnsafePointerD _ p)) = Inr p"
| "Pointer _ = Inl (Panic ''reflect: call of reflect.Value.Pointer on a value that has no pointer'')"

text \<open>
  \<^verbatim>\<open>Value.MapKeys()\<close> and \<^verbatim>\<open>Value.MapIndex(key)\<close>; the latter returns the zero Value
  when the map has no such key. Two limits of the model, both on \<open>MapIndex\<close>:
  \<^item> a key is looked up by its representation, which is Go's key equality except on
    keys with a floating-point part (a NaN equals nothing, the two zeros are equal);
  \<^item> a key of another type than the map's key type is refused with a panic. Go converts
    such a key when it is assignable to the key type; \<^verbatim>\<open>deep.go\<close> can get there only
    with maps of two different types found in two interface values.
\<close>

fun MapKeys :: "world \<Rightarrow> Value \<Rightarrow> panic + Value list" where
  "MapKeys w (Val f (MapD _ p)) = Inr (map (\<lambda>kv. Val (ro f) (fst kv)) (map_at w p))"
| "MapKeys w _ = Inl (Panic ''reflect: call of reflect.Value.MapKeys on a value that is no map'')"

fun MapIndex :: "world \<Rightarrow> Value \<Rightarrow> Value \<Rightarrow> panic + Value" where
  "MapIndex w (Val f (MapD t p)) (Val g k) =
     (if type_Key t = Some (dtype k) then
        Inr (case map_of (map_at w p) k of
               None \<Rightarrow> Zero
             | Some v \<Rightarrow> Val (if f = Exported \<and> g = Exported then Exported else StickyRO) v)
      else Inl (Panic ''reflect.Value.MapIndex: key is not assignable to the map's key type''))"
| "MapIndex w _ _ = Inl (Panic ''reflect: call of reflect.Value.MapIndex on a value that is no map'')"

text \<open>
  \<^verbatim>\<open>Value.Len()\<close> and \<^verbatim>\<open>Value.Index(i)\<close>. \<open>Len\<close> panics on a pointer, as it did in
  the Go releases this package was written for. \<^verbatim>\<open>deep.go\<close> calls \<open>Index\<close> only on
  values on which \<open>IsNil\<close> has returned, never on a string, whose bytes \<open>Index\<close>
  therefore does not give.
\<close>

fun Len :: "world \<Rightarrow> Value \<Rightarrow> panic + nat" where
  "Len w (Val _ (SliceD _ _ n)) = Inr n"
| "Len w (Val _ (ArrayD _ xs)) = Inr (length xs)"
| "Len w (Val _ (StringD _ s)) = Inr (length s)"
| "Len w (Val _ (MapD _ p)) = Inr (length (map_at w p))"
| "Len w (Val _ (ChanD _ _ n)) = Inr n"
| "Len w _ = Inl (Panic ''reflect: call of reflect.Value.Len on a value that has no length'')"

fun Index :: "world \<Rightarrow> Value \<Rightarrow> nat \<Rightarrow> panic + Value" where
  "Index w (Val f (SliceD _ p n)) i =
     (if i < n then Inr (Val (ro f) (array_at w p i))
      else Inl (Panic ''reflect: slice index out of range''))"
| "Index w (Val f (ArrayD _ xs)) i =
     (if i < length xs then Inr (Val (ro f) (xs ! i))
      else Inl (Panic ''reflect: array index out of range''))"
| "Index w _ i = Inl (Panic ''reflect: call of reflect.Value.Index on a value that has no index'')"

text \<open>
  The accessors of primitive values. Each panics on another kind, except that
  \<^verbatim>\<open>Value.Uint()\<close> also reads a uintptr and \<^verbatim>\<open>Value.String()\<close> never panics: on a value
  that is no string it returns \<^verbatim>\<open><T Value>\<close> for the value's type \<^verbatim>\<open>T\<close>.
\<close>

fun Float_of :: "Value \<Rightarrow> panic + 64 word" where
  "Float_of (Val _ (FloatD _ x)) = Inr x"
| "Float_of _ = Inl (Panic ''reflect: call of reflect.Value.Float on a value that is no float'')"

fun Bool_of :: "Value \<Rightarrow> panic + bool" where
  "Bool_of (Val _ (BoolD _ x)) = Inr x"
| "Bool_of _ = Inl (Panic ''reflect: call of reflect.Value.Bool on a value that is no bool'')"

fun Int_of :: "Value \<Rightarrow> panic + int" where
  "Int_of (Val _ (IntD _ x)) = Inr x"
| "Int_of _ = Inl (Panic ''reflect: call of reflect.Value.Int on a value that is no int'')"

fun Uint_of :: "Value \<Rightarrow> panic + nat" where
  "Uint_of (Val _ (UintD _ x)) = Inr x"
| "Uint_of (Val _ (UintptrD _ x)) = Inr x"
| "Uint_of _ = Inl (Panic ''reflect: call of reflect.Value.Uint on a value that is no uint'')"

fun String_of :: "Value \<Rightarrow> string" where
  "String_of (Val _ (StringD _ x)) = x"
| "String_of (Val _ d) = ''<'' @ type_String (dtype d) @ '' Value>''"
| "String_of Zero = ''<invalid Value>''"

subsection \<open>Package \<^verbatim>\<open>fmt\<close> and \<^verbatim>\<open>strings\<close>\<close>

text \<open>Decimal digits of a number, as the verb \<^verbatim>\<open>%d\<close> prints them.\<close>

fun dec :: "nat \<Rightarrow> string" where
  "dec n = (if n < 10 then [''0123456789'' ! n] else dec (n div 10) @ [''0123456789'' ! (n mod 10)])"

declare dec.simps [simp del]

text \<open>
  The verb \<^verbatim>\<open>%.Nf\<close> at a \<^verbatim>\<open>float64\<close>. A finite \<^verbatim>\<open>float64\<close> is the number
  \<open>m * 2 ^ (k - 1075)\<close>, where \<open>m\<close> is its 53-bit significand and \<open>k\<close> its biased
  exponent. Go prints the decimal expansion of that number, rounded to \<open>N\<close> digits
  after the point, to the nearest, a tie to the even digit; the sign bit gives a
  leading \<^verbatim>\<open>-\<close> even when every printed digit is zero.
\<close>

definition sign_bit :: "64 word \<Rightarrow> bool" where
  "sign_bit x = (unat x div 2 ^ 63 = 1)"

definition biased_exp :: "64 word \<Rightarrow> nat" where
  "biased_exp x = (unat x div 2 ^ 52) mod 2 ^ 11"

definition fraction :: "64 word \<Rightarrow> nat" where
  "fraction x = unat x mod 2 ^ 52"

definition round_half_even :: "nat \<Rightarrow> nat \<Rightarrow> nat" where
  "round_half_even n d =
     (let q = n div d; r = n mod d
      in if 2 * r > d \<or> (2 * r = d \<and> odd q) then q + 1 else q)"

text \<open>The magnitude of a finite \<open>x\<close> times \<open>10 ^ prec\<close>, rounded to an integer.\<close>

definition scaled :: "nat \<Rightarrow> 64 word \<Rightarrow> nat" where
  "scaled prec x =
     (let m = (if biased_exp x = 0 then fraction x else 2 ^ 52 + fraction x);
          k = (if biased_exp x = 0 then 1 else biased_exp x)
      in if 1075 \<le> k then m * 2 ^ (k - 1075) * 10 ^ prec
         else round_half_even (m * 10 ^ prec) (2 ^ (1075 - k)))"

text \<open>An integer \<open>q\<close> printed as \<open>q / 10 ^ prec\<close> with \<open>prec\<close> digits after the point.\<close>

definition fixed_point :: "nat \<Rightarrow> nat \<Rightarrow> string" where
  "fixed_point prec q =
     (let ds = replicate (Suc prec - length (dec q)) (CHR ''0'') @ dec q;
          n = length ds - prec
      in take n ds @ (if prec = 0 then [] else ''.'' @ drop n ds))"

definition Sprintf_f :: "nat \<Rightarrow> 64 word \<Rightarrow> string" where
  "Sprintf_f prec x =
     (if biased_exp x = 2047 then
        (if fraction x \<noteq> 0 then ''NaN'' else if sign_bit x then ''-Inf'' else ''+Inf'')
      else (if sign_bit x then ''-'' else []) @ fixed_point prec (scaled prec x))"

text \<open>
  What \<^verbatim>\<open>saveDiff\<close> is given for its two \<^verbatim>\<open>interface{}\<close> parameters in \<^verbatim>\<open>deep.go\<close>: a
  \<^verbatim>\<open>reflect.Type\<close>, a string, a \<^verbatim>\<open>reflect.Value\<close>, or what one of the accessors
  \<^verbatim>\<open>Float\<close>, \<^verbatim>\<open>Bool\<close>, \<^verbatim>\<open>Int\<close>, \<^verbatim>\<open>Uint\<close> returned.
\<close>

datatype arg = Type_arg rtype | string_arg string | Value_arg Value
  | float64_arg "64 word" | bool_arg bool | int64_arg int | uint64_arg nat

text \<open>The verb \<^verbatim>\<open>%v\<close>.\<close>

fun Sprint_v :: "world \<Rightarrow> arg \<Rightarrow> string" where
  "Sprint_v w (Type_arg t) = type_String t"
| "Sprint_v w (string_arg s) = s"
| "Sprint_v w (Value_arg v) = fmt_v_Value w v"
| "Sprint_v w (float64_arg x) = fmt_v_float64 w x"
| "Sprint_v w (bool_arg x) = (if x then ''true'' else ''false'')"
| "Sprint_v w (int64_arg x) = (if x < 0 then ''-'' @ dec (nat (- x)) else dec (nat x))"
| "Sprint_v w (uint64_arg x) = dec x"

text \<open>\<^verbatim>\<open>strings.Join\<close>.\<close>

fun Join :: "string list \<Rightarrow> string \<Rightarrow> string" where
  "Join [] sep = []"
| "Join [x] sep = x"
| "Join (x # y # ys) sep = x @ sep @ Join (y # ys) sep"

subsection \<open>\<^verbatim>\<open>deep.go\<close>\<close>

text \<open>
  The package's variables. \<open>FloatPrecision\<close> is a natural number: the specification
  takes at least zero digits, and a negative one gives no \<^verbatim>\<open>%.Nf\<close> format at all.
\<close>

record config =
  FloatPrecision :: nat
  MaxDiff :: int
  MaxDepth :: int
  LogErrors :: bool
  CompareUnexportedFields :: bool

definition default_config :: config where
  "default_config = \<lparr>FloatPrecision = 10, MaxDiff = 10, MaxDepth = 10, LogErrors = False,
     CompareUnexportedFields = False\<rparr>"

datatype error = ErrMaxRecursion | ErrTypeMismatch | ErrNotHandled

text \<open>
  \<^verbatim>\<open>type cmp struct\<close>. \<open>floatFormat\<close> holds the precision \<open>N\<close> of the format
  \<^verbatim>\<open>%.Nf\<close>. \<open>logged\<close> is no member of the Go struct: it is what \<^verbatim>\<open>logError\<close> has
  written to the standard logger, kept with the state that is threaded through.
\<close>

record cmp =
  diff :: "string list"
  buff :: "string list"
  floatFormat :: nat
  logged :: "error list"

definition push :: "string \<Rightarrow> cmp \<Rightarrow> cmp" where
  "push name c = c\<lparr>buff := buff c @ [name]\<rparr>"

definition pop :: "cmp \<Rightarrow> cmp" where
  "pop c = (if length (buff c) > 0 then c\<lparr>buff := take (length (buff c) - 1) (buff c)\<rparr> else c)"

definition saveDiff :: "world \<Rightarrow> arg \<Rightarrow> arg \<Rightarrow> cmp \<Rightarrow> cmp" where
  "saveDiff w aval bval c =
     (if length (buff c) > 0 then
        (let varName = Join (buff c) ''.''
         in c\<lparr>diff := diff c @ [varName @ '': '' @ Sprint_v w aval @ '' != '' @ Sprint_v w bval]\<rparr>)
      else c\<lparr>diff := diff c @ [Sprint_v w aval @ '' != '' @ Sprint_v w bval]\<rparr>)"

definition logError :: "config \<Rightarrow> error \<Rightarrow> cmp \<Rightarrow> cmp" where
  "logError cfg err c = (if LogErrors cfg then c\<lparr>logged := logged c @ [err]\<rparr> else c)"

text \<open>Sequencing of calls that may panic: a panic ends everything that follows.\<close>

definition andThen :: "panic + 'a \<Rightarrow> ('a \<Rightarrow> panic + 'b) \<Rightarrow> panic + 'b" where
  "andThen m f = (case m of Inl p \<Rightarrow> Inl p | Inr x \<Rightarrow> f x)"

text \<open>
  A \<^verbatim>\<open>for\<close> loop over a list of indices or keys. Its body says how the iteration
  ended: \<open>Next\<close> when the loop goes on (the end of the body, or \<^verbatim>\<open>continue\<close>),
  \<open>Break\<close> when it is left (\<^verbatim>\<open>break\<close>, or \<^verbatim>\<open>return\<close>).
\<close>

datatype 's loop = Next 's | Break 's

fun state_of :: "'s loop \<Rightarrow> 's" where
  "state_of (Next c) = c"
| "state_of (Break c) = c"

fun for_each :: "('i \<Rightarrow> 's \<Rightarrow> panic + 's loop) \<Rightarrow> 'i list \<Rightarrow> 's \<Rightarrow> panic + 's loop" where
  "for_each body [] c = Inr (Next c)"
| "for_each body (i # is) c =
     andThen (body i c) (\<lambda>r. case r of Next c' \<Rightarrow> for_each body is c' | Break c' \<Rightarrow> Inr (Break c'))"

text \<open>
  The two blocks of \<^verbatim>\<open>equals\<close> that follow a pointer or an interface to what it holds:
  the value, its kind and, when there is a value, its type are replaced.
\<close>

definition unwrap :: "world \<Rightarrow> Value \<Rightarrow> kind \<Rightarrow> rtype \<Rightarrow> panic + (Value \<times> kind \<times> rtype)" where
  "unwrap w a aKind aType =
     (if aKind = PtrK \<or> aKind = InterfaceK then
        andThen (Elem w a) (\<lambda>a'.
          if IsValid a' then andThen (Type a') (\<lambda>t. Inr (a', Kind a', t))
          else Inr (a', Kind a', aType))
      else Inr (a, aKind, aType))"

text \<open>After each iteration: \<^verbatim>\<open>if len(c.diff) >= MaxDiff\<close>, leave the loop.\<close>

definition check_MaxDiff :: "config \<Rightarrow> cmp \<Rightarrow> panic + cmp loop" where
  "check_MaxDiff cfg c = (if int (length (diff c)) \<ge> MaxDiff cfg then Inr (Break c) else Inr (Next c))"

text \<open>
  The three cases of the \<^verbatim>\<open>switch\<close> in \<^verbatim>\<open>equals\<close> that iterate. Each is written
  over \<open>rec\<close>, the comparison one level down, for which \<open>equals\<close> below puts
  \<^verbatim>\<open>c.equals(_, _, level+1)\<close>.
\<close>

text \<open>
  \<^verbatim>\<open>case reflect.Struct\<close>: the fields in declaration order. \<open>Struct_field\<close> is the body
  of the loop, at field \<open>i\<close>.
\<close>

definition Struct_field ::
  "(Value \<Rightarrow> Value \<Rightarrow> cmp \<Rightarrow> panic + cmp) \<Rightarrow> config \<Rightarrow> Value \<Rightarrow> Value \<Rightarrow> rtype \<Rightarrow> nat \<Rightarrow> cmp \<Rightarrow> panic + cmp loop" where
  "Struct_field rec cfg a b aType i c =
     andThen (Type_Field aType i) (\<lambda>sf.
     if PkgPath sf \<noteq> [] \<and> \<not> CompareUnexportedFields cfg then Inr (Next c)
     else
     andThen (Field a i) (\<lambda>af.
     andThen (Field b i) (\<lambda>bf.
     andThen (rec af bf (push (Name sf) c)) (\<lambda>c.
     check_MaxDiff cfg (pop c)))))"

definition equals_Struct ::
  "(Value \<Rightarrow> Value \<Rightarrow> cmp \<Rightarrow> panic + cmp) \<Rightarrow> config \<Rightarrow> Value \<Rightarrow> Value \<Rightarrow> rtype \<Rightarrow> cmp \<Rightarrow> panic + cmp" where
  "equals_Struct rec cfg a b aType c =
     andThen (NumField a) (\<lambda>n.
     andThen (for_each (Struct_field rec cfg a b aType) [0..<n] c) (\<lambda>r.
     Inr (state_of r)))"

text \<open>
  \<^verbatim>\<open>case reflect.Map\<close>: the keys of \<open>a\<close>, then the keys of \<open>b\<close> that \<open>a\<close> lacks. The
  \<^verbatim>\<open>return\<close> in the first loop skips the second. \<open>Map_key_a\<close> and \<open>Map_key_b\<close> are the
  bodies of the two loops.
\<close>

definition Map_key_a ::
  "(Value \<Rightarrow> Value \<Rightarrow> cmp \<Rightarrow> panic + cmp) \<Rightarrow> config \<Rightarrow> world \<Rightarrow> Value \<Rightarrow> Value \<Rightarrow> Value \<Rightarrow> cmp \<Rightarrow> panic + cmp loop" where
  "Map_key_a rec cfg w a b key c =
     andThen (MapIndex w a key) (\<lambda>aVal.
     andThen (MapIndex w b key) (\<lambda>bVal.
     andThen (if IsValid bVal then
                rec aVal bVal (push (''map['' @ fmt_s_Value w key @ '']'') c)
              else Inr (saveDiff w (Value_arg aVal) (string_arg ''<does not have key>'')
                          (push (''map['' @ fmt_s_Value w key @ '']'') c))) (\<lambda>c.
     check_MaxDiff cfg (pop c))))"

definition Map_key_b :: "config \<Rightarrow> world \<Rightarrow> Value \<Rightarrow> Value \<Rightarrow> Value \<Rightarrow> cmp \<Rightarrow> panic + cmp loop" where
  "Map_key_b cfg w a b key c =
     andThen (MapIndex w a key) (\<lambda>aVal.
     if IsValid aVal then Inr (Next c)
     else
     andThen (MapIndex w b key) (\<lambda>bVal.
     check_MaxDiff cfg
       (pop (saveDiff w (string_arg ''<does not have key>'') (Value_arg bVal)
          (push (''map['' @ fmt_s_Value w key @ '']'') c)))))"

definition equals_Map ::
  "(Value \<Rightarrow> Value \<Rightarrow> cmp \<Rightarrow> panic + cmp) \<Rightarrow> config \<Rightarrow> world \<Rightarrow> Value \<Rightarrow> Value \<Rightarrow> cmp \<Rightarrow> panic + cmp" where
  "equals_Map rec cfg w a b c =
     andThen (IsNil a) (\<lambda>aNil.
     andThen (IsNil b) (\<lambda>bNil.
     if aNil \<or> bNil then
       Inr (if aNil \<and> \<not> bNil then saveDiff w (string_arg ''<nil map>'') (Value_arg b) c
            else if \<not> aNil \<and> bNil then saveDiff w (Value_arg a) (string_arg ''<nil map>'') c
            else c)
     else
     andThen (Pointer a) (\<lambda>aPointer.
     andThen (Pointer b) (\<lambda>bPointer.
     if aPointer = bPointer then Inr c
     else
     andThen (MapKeys w a) (\<lambda>aKeys.
     andThen (for_each (Map_key_a rec cfg w a b) aKeys c) (\<lambda>r.
     case r of
       Break c \<Rightarrow> Inr c
     | Next c \<Rightarrow>
         andThen (MapKeys w b) (\<lambda>bKeys.
         andThen (for_each (Map_key_b cfg w a b) bKeys c) (\<lambda>r.
         Inr (state_of r)))))))))"

text \<open>
  \<^verbatim>\<open>case reflect.Slice\<close>: the indices below the greater of the two lengths.
  \<open>Slice_index\<close> is the body of the loop, at index \<open>i\<close>.
\<close>

definition Slice_index ::
  "(Value \<Rightarrow> Value \<Rightarrow> cmp \<Rightarrow> panic + cmp) \<Rightarrow> config \<Rightarrow> world \<Rightarrow> Value \<Rightarrow> Value \<Rightarrow> nat \<Rightarrow> nat \<Rightarrow> nat \<Rightarrow> cmp \<Rightarrow> panic + cmp loop" where
  "Slice_index rec cfg w a b aLen bLen i c =
     andThen (if i < aLen \<and> i < bLen then
                andThen (Index w a i) (\<lambda>ai.
                andThen (Index w b i) (\<lambda>bi.
                rec ai bi (push (''slice['' @ dec i @ '']'') c)))
              else if i < aLen then
                andThen (Index w a i) (\<lambda>ai.
                Inr (saveDiff w (Value_arg ai) (string_arg ''<no value>'')
                       (push (''slice['' @ dec i @ '']'') c)))
              else
                andThen (Index w b i) (\<lambda>bi.
                Inr (saveDiff w (string_arg ''<no value>'') (Value_arg bi)
                       (push (''slice['' @ dec i @ '']'') c)))) (\<lambda>c.
     check_MaxDiff cfg (pop c))"

definition equals_Slice ::
  "(Value \<Rightarrow> Value \<Rightarrow> cmp \<Rightarrow> panic + cmp) \<Rightarrow> config \<Rightarrow> world \<Rightarrow> Value \<Rightarrow> Value \<Rightarrow> cmp \<Rightarrow> panic + cmp" where
  "equals_Slice rec cfg w a b c =
     andThen (IsNil a) (\<lambda>aNil.
     andThen (IsNil b) (\<lambda>bNil.
     if aNil \<or> bNil then
       Inr (if aNil \<and> \<not> bNil then saveDiff w (string_arg ''<nil slice>'') (Value_arg b) c
            else if \<not> aNil \<and> bNil then saveDiff w (Value_arg a) (string_arg ''<nil slice>'') c
            else c)
     else
     andThen (Pointer a) (\<lambda>aPointer.
     andThen (Pointer b) (\<lambda>bPointer.
     if aPointer = bPointer then Inr c
     else
     andThen (Len w a) (\<lambda>aLen.
     andThen (Len w b) (\<lambda>bLen.
     let n = (if bLen > aLen then bLen else aLen) in
     andThen (for_each (Slice_index rec cfg w a b aLen bLen) [0..<n] c) (\<lambda>r.
     Inr (state_of r))))))))"

text \<open>
  The \<^verbatim>\<open>switch aKind\<close> of \<^verbatim>\<open>equals\<close>. \<open>a\<close> and \<open>b\<close> are the two values after a pointer or
  an interface has been followed, \<open>aKind\<close> and \<open>aType\<close> the kind and type of \<open>a\<close>.
\<close>

definition equals_switch ::
  "(Value \<Rightarrow> Value \<Rightarrow> cmp \<Rightarrow> panic + cmp) \<Rightarrow> config \<Rightarrow> world \<Rightarrow> Value \<Rightarrow> Value \<Rightarrow> kind \<Rightarrow> rtype \<Rightarrow> cmp \<Rightarrow> panic + cmp" where
  "equals_switch rec cfg w a b aKind aType c =
     (case aKind of
        StructK \<Rightarrow> equals_Struct rec cfg a b aType c
      | MapK \<Rightarrow> equals_Map rec cfg w a b c
      | SliceK \<Rightarrow> equals_Slice rec cfg w a b c
      | FloatK \<Rightarrow>
          andThen (Float_of a) (\<lambda>x.
          andThen (Float_of b) (\<lambda>y.
          Inr (if Sprintf_f (floatFormat c) x \<noteq> Sprintf_f (floatFormat c) y
               then saveDiff w (float64_arg x) (float64_arg y) c else c)))
      | BoolK \<Rightarrow>
          andThen (Bool_of a) (\<lambda>x.
          andThen (Bool_of b) (\<lambda>y.
          Inr (if x \<noteq> y then saveDiff w (bool_arg x) (bool_arg y) c else c)))
      | IntK \<Rightarrow>
          andThen (Int_of a) (\<lambda>x.
          andThen (Int_of b) (\<lambda>y.
          Inr (if x \<noteq> y then saveDiff w (int64_arg x) (int64_arg y) c else c)))
      | UintK \<Rightarrow>
          andThen (Uint_of a) (\<lambda>x.
          andThen (Uint_of b) (\<lambda>y.
          Inr (if x \<noteq> y then saveDiff w (uint64_arg x) (uint64_arg y) c else c)))
      | StringK \<Rightarrow>
          Inr (if String_of a \<noteq> String_of b
               then saveDiff w (string_arg (String_of a)) (string_arg (String_of b)) c else c)
      | _ \<Rightarrow> Inr (logError cfg ErrNotHandled c))"

text \<open>
  \<^verbatim>\<open>func (c *cmp) equals(a, b reflect.Value, level int)\<close>. The receiver is the last
  argument and the result; a panic is the result \<open>Inl\<close>. The recursion ends because
  \<open>level\<close> grows with every call and no call goes on beyond \<open>MaxDepth\<close>; the size of the
  values plays no part, and memory may hold cycles.
\<close>

function equals :: "config \<Rightarrow> world \<Rightarrow> Value \<Rightarrow> Value \<Rightarrow> int \<Rightarrow> cmp \<Rightarrow> panic + cmp" where
  "equals cfg w a b level c =
    (if level > MaxDepth cfg then Inr (logError cfg ErrMaxRecursion c)
     else
     andThen (Type a) (\<lambda>aType.
     andThen (Type b) (\<lambda>bType.
     if aType \<noteq> bType then
       Inr (logError cfg ErrTypeMismatch (saveDiff w (Type_arg aType) (Type_arg bType) c))
     else
     andThen (unwrap w a (Kind a) aType) (\<lambda>(a, aKind, aType).
     andThen (unwrap w b (Kind b) bType) (\<lambda>(b, bKind, bType).
     if \<not> IsValid a \<or> \<not> IsValid b then
       Inr (if IsValid a \<and> \<not> IsValid b then
              saveDiff w (Type_arg aType) (string_arg ''<nil pointer>'') c
            else if \<not> IsValid a \<and> IsValid b then
              saveDiff w (string_arg ''<nil pointer>'') (Type_arg bType) c
            else c)
     else
     andThen (MethodByName_Equal w a) (\<lambda>eqFunc.
     case eqFunc of
       Some m \<Rightarrow>
         andThen (Call_Equal m a b) (\<lambda>r.
         Inr (if \<not> r then saveDiff w (Value_arg a) (Value_arg b) c else c))
     | None \<Rightarrow>
         equals_switch (\<lambda>x y c. equals cfg w x y (level + 1) c) cfg w a b aKind aType c))))))"
  by pat_completeness auto
termination
  by (relation "measure (\<lambda>(cfg, w, a, b, level, c). nat (MaxDepth cfg + 1 - level))") auto

declare equals.simps [simp del]

text \<open>
  \<^verbatim>\<open>func Equal(a, b interface{}) []string\<close>. An \<^verbatim>\<open>interface{}\<close> argument is a value or
  nil; \<^verbatim>\<open>reflect.ValueOf(nil)\<close> is the zero Value. The result \<^verbatim>\<open>nil\<close> is the empty list.
\<close>

fun ValueOf :: "rdata option \<Rightarrow> Value" where
  "ValueOf None = Zero"
| "ValueOf (Some d) = Val Exported d"

definition Equal :: "config \<Rightarrow> world \<Rightarrow> rdata option \<Rightarrow> rdata option \<Rightarrow> panic + string list" where
  "Equal cfg w a b =
     (let aVal = ValueOf a;
          bVal = ValueOf b;
          c = \<lparr>diff = [], buff = [], floatFormat = FloatPrecision cfg, logged = []\<rparr>
      in andThen (equals cfg w aVal bVal 0 c) (\<lambda>c.
         if length (diff c) > 0 then Inr (diff c) else Inr []))"

subsection \<open>Notions used in the statements\<close>

text \<open>The record that \<open>saveDiff\<close> appends to \<open>diff\<close>.\<close>

definition record_of :: "world \<Rightarrow> arg \<Rightarrow> arg \<Rightarrow> cmp \<Rightarrow> string" where
  "record_of w aval bval c =
     (if buff c = [] then [] else Join (buff c) ''.'' @ '': '')
       @ Sprint_v w aval @ '' != '' @ Sprint_v w bval"

text \<open>
  How one call of \<open>equals\<close> may change the state: the path and the float format are as
  before, records are only appended, and if the call started below \<open>MaxDiff\<close> records
  it ends with at most \<open>MaxDiff\<close>. \<open>below\<close> is the same with the cap not yet reached,
  which holds whenever a loop goes on to its next iteration.
\<close>

definition grows :: "config \<Rightarrow> cmp \<Rightarrow> cmp \<Rightarrow> bool" where
  "grows cfg c c' \<longleftrightarrow>
     buff c' = buff c \<and> floatFormat c' = floatFormat c \<and>
     take (length (diff c)) (diff c') = diff c \<and> length (diff c) \<le> length (diff c') \<and>
     (int (length (diff c)) < MaxDiff cfg \<longrightarrow> int (length (diff c')) \<le> MaxDiff cfg)"

definition below :: "config \<Rightarrow> cmp \<Rightarrow> cmp \<Rightarrow> bool" where
  "below cfg c c' \<longleftrightarrow>
     buff c' = buff c \<and> floatFormat c' = floatFormat c \<and>
     take (length (diff c)) (diff c') = diff c \<and> length (diff c) \<le> length (diff c') \<and>
     (int (length (diff c)) < MaxDiff cfg \<longrightarrow> int (length (diff c')) < MaxDiff cfg)"

text \<open>
  Flat records. Two fields form a flat pair when both are booleans, integers, unsigned
  integers, floats or strings of one type. Such a pair differs as the \<^verbatim>\<open>switch\<close> of
  \<open>equals\<close> judges it: floats by their texts at the precision (\<open>leaf_value\<close> of a
  float), the others by value. A field is compared unless it is unexported and
  \<open>CompareUnexportedFields\<close> is off.
\<close>

definition flat_pair :: "rdata \<Rightarrow> rdata \<Rightarrow> bool" where
  "flat_pair x y \<longleftrightarrow>
     dkind x \<in> {BoolK, IntK, UintK, FloatK, StringK} \<and> dkind y = dkind x \<and> dtype y = dtype x"

fun leaf_value :: "nat \<Rightarrow> rdata \<Rightarrow> arg option" where
  "leaf_value prec (BoolD _ x) = Some (bool_arg x)"
| "leaf_value prec (IntD _ x) = Some (int64_arg x)"
| "leaf_value prec (UintD _ x) = Some (uint64_arg x)"
| "leaf_value prec (FloatD _ x) = Some (string_arg (Sprintf_f prec x))"
| "leaf_value prec (StringD _ x) = Some (string_arg x)"
| "leaf_value prec _ = None"

definition leaf_differs :: "nat \<Rightarrow> rdata \<Rightarrow> rdata \<Rightarrow> bool" where
  "leaf_differs prec x y \<longleftrightarrow> leaf_value prec x \<noteq> leaf_value prec y"

definition compared :: "config \<Rightarrow> rtype \<Rightarrow> nat \<Rightarrow> bool" where
  "compared cfg t i \<longleftrightarrow> PkgPath (type_fields t ! i) = [] \<or> CompareUnexportedFields cfg"

definition differing_fields :: "config \<Rightarrow> rtype \<Rightarrow> rdata list \<Rightarrow> rdata list \<Rightarrow> nat list" where
  "differing_fields cfg t xs ys =
     filter (\<lambda>i. compared cfg t i \<and> leaf_differs (FloatPrecision cfg) (xs ! i) (ys ! i))
       [0..<length xs]"

definition flat_records :: "world \<Rightarrow> rtype \<Rightarrow> rdata list \<Rightarrow> rdata list \<Rightarrow> bool" where
  "flat_records w t xs ys \<longleftrightarrow>
     length xs = length (type_fields t) \<and> method_Equal w t = None \<and>
     list_all2 (\<lambda>x y. flat_pair x y \<and> method_Equal w (dtype x) = None) xs ys"

text \<open>
  Well-formed values and memory: a struct has as many fields as its type declares.
  And a program in which no type has a method named \<^verbatim>\<open>Equal\<close>.
\<close>

fun wf_data :: "rdata \<Rightarrow> bool" where
  "wf_data (StructD t fs) = (length fs = length (type_fields t) \<and> (\<forall>d \<in> set fs. wf_data d))"
| "wf_data (IfaceD t (Some d)) = wf_data d"
| "wf_data _ = True"

definition wf_world :: "world \<Rightarrow> bool" where
  "wf_world w \<longleftrightarrow>
     (\<forall>p. wf_data (deref w p)) \<and> (\<forall>p i. wf_data (array_at w p i)) \<and>
     (\<forall>p. \<forall>kv \<in> set (map_at w p). wf_data (snd kv))"

definition no_Equal_methods :: "world \<Rightarrow> bool" where
  "no_Equal_methods w \<longleftrightarrow> (\<forall>t. method_Equal w t = None)"

text \<open>A call that left the records, the path and the float format as they were.\<close>

definition untouched :: "cmp \<Rightarrow> cmp \<Rightarrow> bool" where
  "untouched c c' \<longleftrightarrow> diff c' = diff c \<and> buff c' = buff c \<and> floatFormat c' = floatFormat c"








text \<open>
  Slices. The record for index \<open>j\<close> that only one of two slices has, of lengths \<open>n\<close> and
  \<open>m\<close> with first elements at \<open>p\<close> and \<open>q\<close>, reached with flag \<open>f\<close> at the path of \<open>c\<close>.
\<close>

definition trailing :: "world \<Rightarrow> roflag \<Rightarrow> cmp \<Rightarrow> addr \<Rightarrow> nat \<Rightarrow> addr \<Rightarrow> nat \<Rightarrow> nat \<Rightarrow> string" where
  "trailing w f c p n q m j =
     (if j < n then
        record_of w (Value_arg (Val (ro f) (array_at w p j))) (string_arg ''<no value>'')
          (push (''slice['' @ dec j @ '']'') c)
      else
        record_of w (string_arg ''<no value>'') (Value_arg (Val (ro f) (array_at w q j)))
          (push (''slice['' @ dec j @ '']'') c))"


text \<open>
  Three \<^verbatim>\<open>float64\<close> values: those nearest to the decimals 0.1, 0.2 and 0.3. And the
  sum of two positive normal \<^verbatim>\<open>float64\<close> values as the processor computes it: the exact
  sum of the two numbers, rounded to 53 significant bits, a tie to the even
  significand.
\<close>

fun bit_length :: "nat \<Rightarrow> nat" where
  "bit_length n = (if n = 0 then 0 else Suc (bit_length (n div 2)))"

declare bit_length.simps [simp del]

definition float64_add :: "64 word \<Rightarrow> 64 word \<Rightarrow> 64 word" where
  "float64_add x y =
     (let e = min (biased_exp x) (biased_exp y);
          S = (2 ^ 52 + fraction x) * 2 ^ (biased_exp x - e)
            + (2 ^ 52 + fraction y) * 2 ^ (biased_exp y - e);
          s = bit_length S - 53;
          m = round_half_even S (2 ^ s)
      in if m = 2 ^ 53 then word_of_nat ((e + s + 1) * 2 ^ 52)
         else word_of_nat ((e + s) * 2 ^ 52 + (m - 2 ^ 52)))"

definition float_0_1 :: "64 word" where "float_0_1 = 0x3FB999999999999A"
definition float_0_2 :: "64 word" where "float_0_2 = 0x3FC999999999999A"
definition float_0_3 :: "64 word" where "float_0_3 = 0x3FD3333333333333"

subsection \<open>Example values\<close>

text \<open>
  Types, memory and methods of a small Go program, for the concrete instances below:
  \<^verbatim>\<open>type Person struct { Name string; Age int }\<close>,
  \<^verbatim>\<open>type Node struct { Next *Node }\<close>, \<^verbatim>\<open>type Box struct { X interface{} }\<close>,
  \<^verbatim>\<open>type Cents int\<close> with \<^verbatim>\<open>func (c Cents) Equal(o Cents) bool { return c/100 == o/100 }\<close>
  and \<^verbatim>\<open>type Unequal struct{}\<close> with
  \<^verbatim>\<open>func (Unequal) Equal(Unequal) bool { return false }\<close>.
\<close>

definition T_int :: rtype where "T_int = RType 1 ''int'' [] None"
definition T_string :: rtype where "T_string = RType 2 ''string'' [] None"
definition T_float64 :: rtype where "T_float64 = RType 3 ''float64'' [] None"
definition T_ptr_int :: rtype where "T_ptr_int = RType 4 ''*int'' [] None"
definition T_Person :: rtype where
  "T_Person = RType 5 ''main.Person'' [StructField ''Name'' [] False, StructField ''Age'' [] False] None"
definition T_map :: rtype where "T_map = RType 6 ''map[string]int'' [] (Some T_string)"
definition T_slice :: rtype where "T_slice = RType 7 ''[]int'' [] None"
definition T_Node :: rtype where "T_Node = RType 8 ''main.Node'' [StructField ''Next'' [] False] None"
definition T_ptr_Node :: rtype where "T_ptr_Node = RType 9 ''*main.Node'' [] None"
definition T_Cents :: rtype where "T_Cents = RType 10 ''main.Cents'' [] None"
definition T_Box :: rtype where "T_Box = RType 11 ''main.Box'' [StructField ''X'' [] False] None"
definition T_iface :: rtype where "T_iface = RType 12 ''interface {}'' [] None"
definition T_Unequal :: rtype where "T_Unequal = RType 13 ''main.Unequal'' [] None"
definition T_array :: rtype where "T_array = RType 14 ''[2]int'' [] None"
definition T_Cell :: rtype where
  "T_Cell = RType 15 ''main.Cell'' [StructField ''V'' [] False, StructField ''Next'' [] False] None"
definition T_ptr_Cell :: rtype where "T_ptr_Cell = RType 16 ''*main.Cell'' [] None"

text \<open>
  The verbs \<^verbatim>\<open>%v\<close> and \<^verbatim>\<open>%s\<close> on the values that the examples print: booleans,
  integers, strings and the empty struct, of types without a \<^verbatim>\<open>String\<close> method.
\<close>

fun fmt_v_basic :: "Value \<Rightarrow> string" where
  "fmt_v_basic (Val _ (BoolD _ x)) = (if x then ''true'' else ''false'')"
| "fmt_v_basic (Val _ (IntD _ x)) = (if x < 0 then ''-'' @ dec (nat (- x)) else dec (nat x))"
| "fmt_v_basic (Val _ (UintD _ x)) = dec x"
| "fmt_v_basic (Val _ (StringD _ x)) = x"
| "fmt_v_basic (Val _ (StructD _ [])) = ''{}''"
| "fmt_v_basic _ = ''?''"

fun fmt_s_basic :: "Value \<Rightarrow> string" where
  "fmt_s_basic (Val _ (StringD _ x)) = x"
| "fmt_s_basic _ = ''?''"

definition Cents_Equal :: "rdata \<Rightarrow> rdata \<Rightarrow> call_result" where
  "Cents_Equal x y = (case (x, y) of (IntD _ i, IntD _ j) \<Rightarrow> Returns (i div 100 = j div 100) | _ \<Rightarrow> Panics)"

text \<open>
  Memory: address 1 holds the int 5; addresses 40 and 41 hold two nodes, each pointing
  to itself; the array at address \<open>p\<close> holds \<open>p\<close>, \<open>p + 1\<close>, ...; address 10 holds the map
  \<^verbatim>\<open>{"a": 1, "b": 2}\<close> and address 11 the map \<^verbatim>\<open>{"a": 1}\<close>. \<^verbatim>\<open>%v\<close> is given at the two
  floats \<open>0.1 + 0.2\<close> and \<open>0.3\<close>.
\<close>

definition ex :: world where
  "ex = \<lparr>deref = (\<lambda>p. if p = 1 then IntD T_int 5
                     else if p = 40 then StructD T_Node [PtrD T_ptr_Node 40]
                     else if p = 41 then StructD T_Node [PtrD T_ptr_Node 41]
                     else IntD T_int 0),
         array_at = (\<lambda>p i. IntD T_int (int (p + i))),
         map_at = (\<lambda>p. if p = 10 then [(StringD T_string ''a'', IntD T_int 1), (StringD T_string ''b'', IntD T_int 2)]
                     else if p = 11 then [(StringD T_string ''a'', IntD T_int 1)]
                     else []),
         method_Equal = (\<lambda>t. if t = T_Cents then Some Cents_Equal
                     else if t = T_Unequal then Some (\<lambda>x y. Returns False)
                     else None),
         fmt_v_Value = fmt_v_basic,
         fmt_s_Value = fmt_s_basic,
         fmt_v_float64 = (\<lambda>x. if x = 0x3FD3333333333334 then ''0.30000000000000004''
                     else if x = 0x3FD3333333333333 then ''0.3'' else ''?'')\<rparr>"

text \<open>
  Two endless chains of \<^verbatim>\<open>type Cell struct { V int; Next *Cell }\<close>: the cells at the
  addresses from 100 on all hold 0; those from 200 on hold 0 except the cell at 210,
  the eleventh, which holds 1.
\<close>

definition ex_chain :: world where
  "ex_chain = ex\<lparr>deref := (\<lambda>p.
     if 200 \<le> p then StructD T_Cell [IntD T_int (if p = 210 then 1 else 0), PtrD T_ptr_Cell (p + 1)]
     else StructD T_Cell [IntD T_int 0, PtrD T_ptr_Cell (p + 1)])\<rparr>"

text \<open>The same program without the two \<^verbatim>\<open>Equal\<close> methods.\<close>

definition ex_plain :: world where
  "ex_plain = ex\<lparr>method_Equal := (\<lambda>t. None)\<rparr>"

text \<open>The state that \<open>Equal\<close> starts from under the default configuration.\<close>

definition c0 :: cmp where "c0 = \<lparr>diff = [], buff = [], floatFormat = 10, logged = []\<rparr>"

subsection \<open>Basic facts\<close>

lemma andThen_Inr [simp]: "andThen (Inr x) f = f x"
  by (simp add: andThen_def)

lemma andThen_Inl [simp]: "andThen (Inl p) f = Inl p"
  by (simp add: andThen_def)

lemma andThen_eq_Inr: "andThen m f = Inr y \<longleftrightarrow> (\<exists>x. m = Inr x \<and> f x = Inr y)"
  by (cases m) simp_all

lemma diff_push [simp]: "diff (push n c) = diff c"
  and buff_push [simp]: "buff (push n c) = buff c @ [n]"
  and floatFormat_push [simp]: "floatFormat (push n c) = floatFormat c"
  by (simp_all add: push_def)

lemma diff_pop [simp]: "diff (pop c) = diff c"
  and floatFormat_pop [simp]: "floatFormat (pop c) = floatFormat c"
  and buff_pop [simp]: "buff (pop c) = butlast (buff c)"
  by (simp_all add: pop_def butlast_conv_take)

lemma diff_logError [simp]: "diff (logError cfg e c) = diff c"
  and buff_logError [simp]: "buff (logError cfg e c) = buff c"
  and floatFormat_logError [simp]: "floatFormat (logError cfg e c) = floatFormat c"
  by (simp_all add: logError_def)

lemma diff_saveDiff [simp]: "diff (saveDiff w x y c) = diff c @ [record_of w x y c]"
  and buff_saveDiff [simp]: "buff (saveDiff w x y c) = buff c"
  and floatFormat_saveDiff [simp]: "floatFormat (saveDiff w x y c) = floatFormat c"
  by (simp_all add: saveDiff_def record_of_def Let_def)

lemmas T_defs = T_int_def T_string_def T_float64_def T_ptr_int_def T_Person_def T_map_def
  T_slice_def T_Node_def T_ptr_Node_def T_Cents_def T_Box_def T_iface_def T_Unequal_def
  T_array_def T_Cell_def T_ptr_Cell_def

text \<open>What \<open>equals\<close> does once both values are there after unwrapping.\<close>

lemma equals_reach:
  assumes "\<not> MaxDepth cfg < level" "Type a = Inr t" "Type b = Inr t"
    and "unwrap w a (Kind a) t = Inr (a', ka, ta)" "unwrap w b (Kind b) t = Inr (b', kb, tb)"
    and "IsValid a'" "IsValid b'"
  shows "equals cfg w a b level c =
     andThen (MethodByName_Equal w a') (\<lambda>eqFunc.
       case eqFunc of
         Some m \<Rightarrow> andThen (Call_Equal m a' b') (\<lambda>r.
           Inr (if \<not> r then saveDiff w (Value_arg a') (Value_arg b') c else c))
       | None \<Rightarrow> equals_switch (\<lambda>x y c. equals cfg w x y (level + 1) c) cfg w a' b' ka ta c)"
  by (subst equals.simps) (simp add: assms)

subsection \<open>The depth guard and termination\<close>

text \<open>
  C4. The recursion of \<open>equals\<close> terminates on every input: every argument tuple is in
  the domain on which the recursion is well-founded, whatever cycles memory holds.
  And a call at a level above \<open>MaxDepth\<close> returns at once and records no difference.
\<close>

theorem equals_depth_guard:
  "All equals_dom \<and>
   (MaxDepth cfg < level \<longrightarrow>
      equals cfg w a b level c = Inr (logError cfg ErrMaxRecursion c) \<and>
      diff (logError cfg ErrMaxRecursion c) = diff c)"
proof
  show "All equals_dom"
    by (rule "equals.termination"
          [of "measure (\<lambda>(cfg, w, a, b, level, c). nat (MaxDepth cfg + 1 - level))"]) auto
next
  show "MaxDepth cfg < level \<longrightarrow>
      equals cfg w a b level c = Inr (logError cfg ErrMaxRecursion c) \<and>
      diff (logError cfg ErrMaxRecursion c) = diff c"
    by (simp add: equals.simps)
qed

text \<open>Two distinct nodes that each point to themselves compare without a difference.\<close>

lemma Equal_cyclic_nodes: "Equal default_config ex (Some (PtrD T_ptr_Node 40)) (Some (PtrD T_ptr_Node 41)) = Inr []"
  by code_simp

theorem equals_depth_guard_witness:
  "equals_dom (default_config, ex, Val Exported (PtrD T_ptr_Node 40), Val Exported (PtrD T_ptr_Node 41), 0, c0) \<and>
   MaxDepth default_config < 11 \<and>
   equals default_config ex (Val Exported (PtrD T_ptr_Node 40)) (Val Exported (PtrD T_ptr_Node 41)) 11 c0 = Inr c0 \<and>
   Equal default_config ex (Some (PtrD T_ptr_Node 40)) (Some (PtrD T_ptr_Node 41)) = Inr []"
  using equals_depth_guard [of default_config 11 ex "Val Exported (PtrD T_ptr_Node 40)" "Val Exported (PtrD T_ptr_Node 41)" c0] Equal_cyclic_nodes
  by (simp add: default_config_def logError_def)


text \<open>
  Exploration is cut at the cap: the two chains differ in their eleventh cell, whose
  fields are at level 11. With \<open>MaxDepth\<close> 10 nothing is reported; with 11 the
  difference is.
\<close>

lemma Equal_truncated:
  "Equal default_config ex_chain (Some (PtrD T_ptr_Cell 100)) (Some (PtrD T_ptr_Cell 200)) = Inr []"
  "Equal (default_config\<lparr>MaxDepth := 11\<rparr>) ex_chain (Some (PtrD T_ptr_Cell 100)) (Some (PtrD T_ptr_Cell 200))
     = Inr [''Next.Next.Next.Next.Next.Next.Next.Next.Next.Next.V: 0 != 1'']"
  by code_simp+

lemma unwrap_plain:
  "dkind d \<noteq> PtrK \<Longrightarrow> dkind d \<noteq> InterfaceK \<Longrightarrow>
   unwrap w (Val f d) (Kind (Val f d)) t = Inr (Val f d, dkind d, t)"
  by (simp add: unwrap_def)

subsection \<open>Values of different types\<close>

text \<open>
  When both values are there and their types differ, \<open>Equal\<close> returns exactly one
  record, the two types' names around \<^verbatim>\<open>!=\<close>, whatever the values hold. Inside the
  walk, at any level within \<open>MaxDepth\<close>, \<open>equals\<close> appends that one record at the current
  path and returns without looking into either value.
\<close>

theorem Equal_type_mismatch:
  assumes "dtype x \<noteq> dtype y"
  shows "(0 \<le> MaxDepth cfg \<longrightarrow>
           Equal cfg w (Some x) (Some y) = Inr [type_String (dtype x) @ '' != '' @ type_String (dtype y)])
       \<and> (level \<le> MaxDepth cfg \<longrightarrow>
           equals cfg w (Val f x) (Val g y) level c =
             Inr (logError cfg ErrTypeMismatch (saveDiff w (Type_arg (dtype x)) (Type_arg (dtype y)) c))
           \<and> diff (logError cfg ErrTypeMismatch (saveDiff w (Type_arg (dtype x)) (Type_arg (dtype y)) c))
               = diff c @ [record_of w (Type_arg (dtype x)) (Type_arg (dtype y)) c])"
  using assms by (simp add: equals.simps Equal_def record_of_def)

theorem Equal_type_mismatch_witness:
  "dtype (IntD T_int 3) \<noteq> dtype (StringD T_string ''3'') \<and> 0 \<le> MaxDepth default_config \<and>
   Equal default_config ex (Some (IntD T_int 3)) (Some (StringD T_string ''3'')) = Inr [''int != string'']"
  using Equal_type_mismatch [of "IntD T_int 3" "StringD T_string ''3''" default_config ex]
  by (simp add: T_defs default_config_def)

text \<open>
  C2. A nil interface and a value are of different dynamic types as well, and for them
  \<open>Equal\<close> returns no record at all: \<^verbatim>\<open>reflect.ValueOf(nil)\<close> is the zero Value, and
  \<^verbatim>\<open>a.Type()\<close> or \<^verbatim>\<open>b.Type()\<close> panics on it before the types are compared, whichever
  side the nil is on and whatever the value is.
\<close>

theorem Equal_nil_against_value:
  "Equal default_config w None (Some y) = Inl (Panic ''reflect: call of reflect.Value.Type on zero Value'')
   \<and> Equal default_config w (Some x) None = Inl (Panic ''reflect: call of reflect.Value.Type on zero Value'')"
  by (simp add: Equal_def equals.simps default_config_def)

subsection \<open>Panics that reach the caller\<close>

text \<open>
  C10. \<open>Equal\<close> does not always return: \<^verbatim>\<open>Equal(nil, nil)\<close> panics in \<^verbatim>\<open>a.Type()\<close>, called
  on the zero Value before \<^verbatim>\<open>IsValid\<close> is asked; and two \<^verbatim>\<open>Box\<close> values whose
  interface fields hold an int and a string panic in \<^verbatim>\<open>b.Int()\<close>, because the types
  are not compared again after the interfaces have been followed.
\<close>

theorem Equal_nil_panics:
  "Equal default_config w None None = Inl (Panic ''reflect: call of reflect.Value.Type on zero Value'')
   \<and> Equal default_config ex (Some (StructD T_Box [IfaceD T_iface (Some (IntD T_int 1))]))
        (Some (StructD T_Box [IfaceD T_iface (Some (StringD T_string ''a''))]))
      = Inl (Panic ''reflect: call of reflect.Value.Int on a value that is no int'')"
proof
  show "Equal default_config w None None = Inl (Panic ''reflect: call of reflect.Value.Type on zero Value'')"
    by (simp add: Equal_def equals.simps default_config_def)
  show "Equal default_config ex (Some (StructD T_Box [IfaceD T_iface (Some (IntD T_int 1))]))
        (Some (StructD T_Box [IfaceD T_iface (Some (StringD T_string ''a''))]))
      = Inl (Panic ''reflect: call of reflect.Value.Int on a value that is no int'')"
    by code_simp
qed

subsection \<open>A type's own \<^verbatim>\<open>Equal\<close> method\<close>



subsection \<open>Nil against a value\<close>

text \<open>
  C8, as amended. After unwrapping, when one value is absent and the other present,
  \<open>equals\<close> appends exactly one record that pairs the \<^emph>\<open>type\<close> of the present value
  with \<^verbatim>\<open><nil pointer>\<close> and returns; when both are absent it appends nothing.
\<close>

theorem equals_nil_pointer:
  assumes "level \<le> MaxDepth cfg" "Type a = Inr t" "Type b = Inr t"
    and "unwrap w a (Kind a) t = Inr (a', ka, ta)" "unwrap w b (Kind b) t = Inr (b', kb, tb)"
  shows "(IsValid a' \<and> \<not> IsValid b' \<longrightarrow>
            equals cfg w a b level c = Inr (saveDiff w (Type_arg ta) (string_arg ''<nil pointer>'') c)
            \<and> diff (saveDiff w (Type_arg ta) (string_arg ''<nil pointer>'') c)
                = diff c @ [record_of w (Type_arg ta) (string_arg ''<nil pointer>'') c])
       \<and> (\<not> IsValid a' \<and> IsValid b' \<longrightarrow>
            equals cfg w a b level c = Inr (saveDiff w (string_arg ''<nil pointer>'') (Type_arg tb) c)
            \<and> diff (saveDiff w (string_arg ''<nil pointer>'') (Type_arg tb) c)
                = diff c @ [record_of w (string_arg ''<nil pointer>'') (Type_arg tb) c])
       \<and> (\<not> IsValid a' \<and> \<not> IsValid b' \<longrightarrow> equals cfg w a b level c = Inr c)"
  using assms by (subst equals.simps, simp)+

theorem equals_nil_pointer_witness:
  "Equal default_config ex (Some (PtrD T_ptr_int 1)) (Some (PtrD T_ptr_int 0)) = Inr [''int != <nil pointer>'']
   \<and> Equal default_config ex (Some (PtrD T_ptr_int 0)) (Some (PtrD T_ptr_int 1)) = Inr [''<nil pointer> != int'']
   \<and> Equal default_config ex (Some (PtrD T_ptr_int 0)) (Some (PtrD T_ptr_int 0)) = Inr []"
  using equals_nil_pointer [of 0 default_config "Val Exported (PtrD T_ptr_int 1)" T_ptr_int
      "Val Exported (PtrD T_ptr_int 0)" ex "Val Exported (IntD T_int 5)" IntK T_int Zero InvalidK T_ptr_int c0]
    equals_nil_pointer [of 0 default_config "Val Exported (PtrD T_ptr_int 0)" T_ptr_int
      "Val Exported (PtrD T_ptr_int 1)" ex Zero InvalidK T_ptr_int "Val Exported (IntD T_int 5)" IntK T_int c0]
    equals_nil_pointer [of 0 default_config "Val Exported (PtrD T_ptr_int 0)" T_ptr_int
      "Val Exported (PtrD T_ptr_int 0)" ex Zero InvalidK T_ptr_int Zero InvalidK T_ptr_int c0]
  by (simp add: Equal_def default_config_def unwrap_def ex_def T_defs saveDiff_def c0_def)

text \<open>
  C8 as stated fails: for a pointer to the int 5 against a nil pointer the record is
  \<^verbatim>\<open>int != <nil pointer>\<close>; the value is printed \<^verbatim>\<open>5\<close> and does not occur in it.
\<close>

theorem nil_pointer_counterexample:
  "Equal default_config ex (Some (PtrD T_ptr_int 1)) (Some (PtrD T_ptr_int 0)) = Inr [''int != <nil pointer>'']
   \<and> Sprint_v ex (Value_arg (Val Exported (deref ex 1))) = ''5''
   \<and> Equal default_config ex (Some (PtrD T_ptr_int 1)) (Some (PtrD T_ptr_int 0))
       \<noteq> Inr [Sprint_v ex (Value_arg (Val Exported (deref ex 1))) @ '' != '' @ ''<nil pointer>'']"
  by code_simp


subsection \<open>Floating-point leaves\<close>

lemma float_fields:
  "biased_exp float_0_1 = 1019" "fraction float_0_1 = 0x999999999999A"
  "biased_exp float_0_2 = 1020" "fraction float_0_2 = 0x999999999999A"
  "biased_exp float_0_3 = 1021" "fraction float_0_3 = 0x3333333333333"
  by (simp_all add: biased_exp_def fraction_def float_0_1_def float_0_2_def float_0_3_def)

text \<open>The three values are the decimals 0.1, 0.2, 0.3 rounded to 53 bits.\<close>

lemma decimal_literals:
  "round_half_even (1 * 2 ^ (1075 - biased_exp float_0_1)) 10 = 2 ^ 52 + fraction float_0_1"
  "round_half_even (2 * 2 ^ (1075 - biased_exp float_0_2)) 10 = 2 ^ 52 + fraction float_0_2"
  "round_half_even (3 * 2 ^ (1075 - biased_exp float_0_3)) 10 = 2 ^ 52 + fraction float_0_3"
  by (simp_all add: round_half_even_def float_fields Let_def)

lemma bit_length_sum: "bit_length 21617278211378382 = 55"
  by (simp add: bit_length.simps)

lemma float_sum: "float64_add float_0_1 float_0_2 = 0x3FD3333333333334"
  by (simp add: float64_add_def float_fields Let_def bit_length_sum round_half_even_def)

lemmas Sprintf_f_eval = Sprintf_f_def sign_bit_def biased_exp_def fraction_def scaled_def
  round_half_even_def fixed_point_def dec.simps Let_def

lemma Sprintf_f_sum:
  "Sprintf_f 10 (float64_add float_0_1 float_0_2) = ''0.3000000000''"
  "Sprintf_f 17 (float64_add float_0_1 float_0_2) = ''0.30000000000000004''"
  unfolding float_sum by (simp_all add: Sprintf_f_eval)

lemma Sprintf_f_0_3:
  "Sprintf_f 10 float_0_3 = ''0.3000000000''"
  "Sprintf_f 17 float_0_3 = ''0.29999999999999999''"
  by (simp_all add: Sprintf_f_eval float_0_3_def)

lemma equals_Float_leaf:
  assumes "method_Equal w t = None" "level \<le> MaxDepth cfg"
  shows "equals cfg w (Val f (FloatD t x)) (Val g (FloatD t y)) level c =
           Inr (if Sprintf_f (floatFormat c) x = Sprintf_f (floatFormat c) y then c
                else saveDiff w (float64_arg x) (float64_arg y) c)"
  using assms
  by (simp add: equals_reach [where a' = "Val f (FloatD t x)" and b' = "Val g (FloatD t y)" and t = t
         and ka = FloatK and ta = t and kb = FloatK and tb = t] unwrap_def equals_switch_def)

text \<open>
  C9. Two floats of one type (that has no \<open>Equal\<close> method), compared within
  \<open>MaxDepth\<close>, are judged equal exactly when their \<^verbatim>\<open>%.Nf\<close> texts at the configured
  precision are equal; otherwise one record is appended, made of the two floats
  themselves and not of the rounded texts. For \<open>0.1 + 0.2\<close> against \<open>0.3\<close>, \<open>Equal\<close>
  returns nothing at precision 10 and one record at precision 17.
\<close>

theorem Equal_Float:
  assumes "method_Equal w t = None"
  shows "(level \<le> MaxDepth cfg \<longrightarrow>
           equals cfg w (Val f (FloatD t x)) (Val g (FloatD t y)) level c =
             Inr (if Sprintf_f (floatFormat c) x = Sprintf_f (floatFormat c) y then c
                  else saveDiff w (float64_arg x) (float64_arg y) c))
       \<and> (0 \<le> MaxDepth cfg \<longrightarrow>
           Equal cfg w (Some (FloatD t x)) (Some (FloatD t y)) =
             Inr (if Sprintf_f (FloatPrecision cfg) x = Sprintf_f (FloatPrecision cfg) y then []
                  else [fmt_v_float64 w x @ '' != '' @ fmt_v_float64 w y]))
       \<and> (0 \<le> MaxDepth cfg \<and> FloatPrecision cfg = 10 \<longrightarrow>
           Equal cfg w (Some (FloatD t (float64_add float_0_1 float_0_2))) (Some (FloatD t float_0_3)) = Inr [])
       \<and> (0 \<le> MaxDepth cfg \<and> FloatPrecision cfg = 17 \<longrightarrow>
           Equal cfg w (Some (FloatD t (float64_add float_0_1 float_0_2))) (Some (FloatD t float_0_3)) =
             Inr [fmt_v_float64 w (float64_add float_0_1 float_0_2) @ '' != '' @ fmt_v_float64 w float_0_3])"
  using assms
  by (simp add: equals_Float_leaf Equal_def Sprintf_f_sum Sprintf_f_0_3 record_of_def)

theorem Equal_Float_witness:
  "method_Equal ex T_float64 = None
   \<and> Equal default_config ex (Some (FloatD T_float64 (float64_add float_0_1 float_0_2)))
        (Some (FloatD T_float64 float_0_3)) = Inr []
   \<and> Equal (default_config\<lparr>FloatPrecision := 17\<rparr>) ex (Some (FloatD T_float64 (float64_add float_0_1 float_0_2)))
        (Some (FloatD T_float64 float_0_3)) = Inr [''0.30000000000000004 != 0.3'']"
proof -
  have m: "method_Equal ex T_float64 = None"
    by (simp add: ex_def T_defs)
  have f: "fmt_v_float64 ex (float64_add float_0_1 float_0_2) = ''0.30000000000000004''"
    "fmt_v_float64 ex float_0_3 = ''0.3''"
    by (simp_all add: float_sum float_0_3_def ex_def)
  show ?thesis
    using m Equal_Float [OF m, of 0 default_config Exported undefined Exported undefined c0]
      Equal_Float [OF m, of 0 "default_config\<lparr>FloatPrecision := 17\<rparr>" Exported undefined Exported undefined c0]
    by (simp add: default_config_def f)
qed


subsection \<open>What a call of \<open>equals\<close> leaves of the state\<close>

lemma for_each_inv:
  assumes "for_each body xs c = Inr r" "I c"
    and "\<And>i x r'. i \<in> set xs \<Longrightarrow> I x \<Longrightarrow> body i x = Inr r' \<Longrightarrow>
           (case r' of Next x' \<Rightarrow> I x' | Break x' \<Rightarrow> Q x')"
  shows "case r of Next x' \<Rightarrow> I x' | Break x' \<Rightarrow> Q x'"
  using assms
proof (induction xs arbitrary: c)
  case Nil
  then show ?case by auto
next
  case (Cons i "is")
  from Cons.prems(1) obtain r' where r': "body i c = Inr r'"
    and rest: "(case r' of Next c' \<Rightarrow> for_each body is c' | Break c' \<Rightarrow> Inr (Break c')) = Inr r"
    by (auto simp: andThen_eq_Inr)
  have step: "case r' of Next x' \<Rightarrow> I x' | Break x' \<Rightarrow> Q x'"
    using Cons.prems(3) [of i c r'] Cons.prems(2) r' by simp
  show ?case
  proof (cases r')
    case (Next c')
    with rest step Cons.IH [of c'] Cons.prems(3) show ?thesis by auto
  next
    case (Break c')
    with rest step show ?thesis by auto
  qed
qed

lemma grows_refl [simp]: "grows cfg c c"
  by (simp add: grows_def)

lemma grows_logError [simp]: "grows cfg c (logError cfg e x) = grows cfg c x"
  by (simp add: grows_def)

lemma below_refl [simp]: "below cfg c c"
  by (simp add: below_def)

lemma below_grows: "below cfg c c' \<Longrightarrow> grows cfg c c'"
  by (auto simp: below_def grows_def)

lemma loop_result_grows:
  "(case r of Next x' \<Rightarrow> below cfg c x' | Break x' \<Rightarrow> grows cfg c x') \<Longrightarrow> grows cfg c (state_of r)"
  by (cases r) (auto simp: below_grows)

lemma take_prefix_trans:
  assumes "take (length xs) ys = xs" "length xs \<le> length ys" "take (length ys) zs = ys" "length ys \<le> length zs"
  shows "take (length xs) zs = xs"
proof -
  have "take (length xs) zs = take (length xs) (take (length ys) zs)"
    using assms(2) by (simp add: min_def)
  then show ?thesis using assms by simp
qed

lemma iteration_step:
  assumes "below cfg c x" "grows cfg (push n x) x2" "check_MaxDiff cfg (pop x2) = Inr r'"
  shows "case r' of Next x' \<Rightarrow> below cfg c x' | Break x' \<Rightarrow> grows cfg c x'"
proof -
  have t: "take (length (diff c)) (diff x2) = diff c"
    using assms(1,2) take_prefix_trans [of "diff c" "diff x" "diff x2"]
    by (simp add: below_def grows_def)
  show ?thesis
    using assms t by (auto simp: check_MaxDiff_def below_def grows_def split: if_splits)
qed

lemma grows_saveDiff_push:
  "grows cfg (push n x) (saveDiff w u v (push n x))"
  by (simp add: grows_def)


lemma saveDiff_step:
  assumes "below cfg c x" "check_MaxDiff cfg (pop (saveDiff w u v (push n x))) = Inr r'"
  shows "case r' of Next x' \<Rightarrow> below cfg c x' | Break x' \<Rightarrow> grows cfg c x'"
  using assms(1) grows_saveDiff_push assms(2) by (rule iteration_step)

lemma grows_saveDiff [simp]:
  "grows cfg c (saveDiff w u v c)"
  by (simp add: grows_def)

lemma Struct_field_grows:
  assumes rec: "\<And>x y c c'. rec x y c = Inr c' \<Longrightarrow> grows cfg c c'"
    and I: "below cfg c x" and body: "Struct_field rec cfg a b t i x = Inr r'"
  shows "case r' of Next x' \<Rightarrow> below cfg c x' | Break x' \<Rightarrow> grows cfg c x'"
proof -
  from body obtain sf where sf: "Type_Field t i = Inr sf"
    and rest: "(if PkgPath sf \<noteq> [] \<and> \<not> CompareUnexportedFields cfg then Inr (Next x)
       else
       andThen (Field a i) (\<lambda>af.
       andThen (Field b i) (\<lambda>bf.
       andThen (rec af bf (push (Name sf) x)) (\<lambda>c.
       check_MaxDiff cfg (pop c))))) = Inr r'"
    by (auto simp: Struct_field_def andThen_eq_Inr)
  show ?thesis
  proof (cases "PkgPath sf \<noteq> [] \<and> \<not> CompareUnexportedFields cfg")
    case True
    with rest I show ?thesis by auto
  next
    case False
    with rest obtain af bf x2 where "rec af bf (push (Name sf) x) = Inr x2"
      and "check_MaxDiff cfg (pop x2) = Inr r'"
      by (auto simp: andThen_eq_Inr)
    with I rec show ?thesis by (blast intro: iteration_step)
  qed
qed

lemma Map_key_a_grows:
  assumes rec: "\<And>x y c c'. rec x y c = Inr c' \<Longrightarrow> grows cfg c c'"
    and I: "below cfg c x" and body: "Map_key_a rec cfg w a b key x = Inr r'"
  shows "case r' of Next x' \<Rightarrow> below cfg c x' | Break x' \<Rightarrow> grows cfg c x'"
proof -
  from body have "\<exists>x2. grows cfg (push (''map['' @ fmt_s_Value w key @ '']'') x) x2
      \<and> check_MaxDiff cfg (pop x2) = Inr r'"
    by (fastforce simp: Map_key_a_def andThen_eq_Inr split: if_splits intro: rec grows_saveDiff_push)
  then obtain x2 where "grows cfg (push (''map['' @ fmt_s_Value w key @ '']'') x) x2"
    and "check_MaxDiff cfg (pop x2) = Inr r'"
    by blast
  with I show ?thesis by (rule iteration_step)
qed

lemma Map_key_b_grows:
  assumes I: "below cfg c x" and body: "Map_key_b cfg w a b key x = Inr r'"
  shows "case r' of Next x' \<Rightarrow> below cfg c x' | Break x' \<Rightarrow> grows cfg c x'"
  using body I
  by (auto simp: Map_key_b_def andThen_eq_Inr split: if_splits dest: saveDiff_step)

lemma Slice_index_grows:
  assumes rec: "\<And>x y c c'. rec x y c = Inr c' \<Longrightarrow> grows cfg c c'"
    and I: "below cfg c x" and body: "Slice_index rec cfg w a b aLen bLen i x = Inr r'"
  shows "case r' of Next x' \<Rightarrow> below cfg c x' | Break x' \<Rightarrow> grows cfg c x'"
proof -
  from body have "\<exists>x2. grows cfg (push (''slice['' @ dec i @ '']'') x) x2
      \<and> check_MaxDiff cfg (pop x2) = Inr r'"
    by (fastforce simp: Slice_index_def andThen_eq_Inr split: if_splits intro: rec grows_saveDiff_push)
  then obtain x2 where "grows cfg (push (''slice['' @ dec i @ '']'') x) x2"
    and "check_MaxDiff cfg (pop x2) = Inr r'"
    by blast
  with I show ?thesis by (rule iteration_step)
qed

lemma equals_Struct_grows:
  assumes rec: "\<And>x y c c'. rec x y c = Inr c' \<Longrightarrow> grows cfg c c'"
    and "equals_Struct rec cfg a b t c = Inr c'"
  shows "grows cfg c c'"
proof -
  from assms(2) obtain n r where
    loop: "for_each (Struct_field rec cfg a b t) [0..<n] c = Inr r" and c': "c' = state_of r"
    by (auto simp: equals_Struct_def andThen_eq_Inr)
  have "case r of Next x' \<Rightarrow> below cfg c x' | Break x' \<Rightarrow> grows cfg c x'"
    by (rule for_each_inv [OF loop, where I = "below cfg c"]) (simp_all add: Struct_field_grows [OF rec])
  then show ?thesis using c' by (simp add: loop_result_grows)
qed

lemma Map_loop_a_grows:
  assumes rec: "\<And>x y c c'. rec x y c = Inr c' \<Longrightarrow> grows cfg c c'"
    and loop1: "for_each (Map_key_a rec cfg w a b) aKeys c = Inr r1"
  shows "case r1 of Next x' \<Rightarrow> below cfg c x' | Break x' \<Rightarrow> grows cfg c x'"
  by (rule for_each_inv [OF loop1, where I = "below cfg c"])
    (simp_all add: Map_key_a_grows [OF rec])

lemma Map_loop_b_grows:
  assumes "below cfg c x"
    and loop2: "for_each (Map_key_b cfg w a b) bKeys x = Inr r2"
  shows "grows cfg c (state_of r2)"
proof -
  from assms(1) have "case r2 of Next x' \<Rightarrow> below cfg c x' | Break x' \<Rightarrow> grows cfg c x'"
    by (rule for_each_inv [OF loop2, where I = "below cfg c"]) (simp add: Map_key_b_grows)
  then show ?thesis by (simp add: loop_result_grows)
qed

lemma Map_loop_a_Next:
  assumes "\<And>x y c c'. rec x y c = Inr c' \<Longrightarrow> grows cfg c c'"
    and "for_each (Map_key_a rec cfg w a b) aKeys c = Inr (Next x)"
  shows "below cfg c x"
  using Map_loop_a_grows [OF assms] by simp

lemma Map_loop_a_Break:
  assumes "\<And>x y c c'. rec x y c = Inr c' \<Longrightarrow> grows cfg c c'"
    and "for_each (Map_key_a rec cfg w a b) aKeys c = Inr (Break x)"
  shows "grows cfg c x"
  using Map_loop_a_grows [OF assms] by simp

lemma loop_case_eq:
  "(case r of Next c \<Rightarrow> f c | Break c \<Rightarrow> g c) = Inr y \<longleftrightarrow>
     (\<exists>c. r = Next c \<and> f c = Inr y) \<or> (\<exists>c. r = Break c \<and> g c = Inr y)"
  by (cases r) auto

lemma equals_Map_grows:
  assumes rec: "\<And>x y c c'. rec x y c = Inr c' \<Longrightarrow> grows cfg c c'"
    and eq: "equals_Map rec cfg w a b c = Inr c'"
  shows "grows cfg c c'"
  using eq unfolding equals_Map_def
  by (auto simp: andThen_eq_Inr loop_case_eq split: if_splits
      intro: Map_loop_a_Break [OF rec] Map_loop_b_grows [OF Map_loop_a_Next [OF rec]])

lemma equals_Slice_grows:
  assumes rec: "\<And>x y c c'. rec x y c = Inr c' \<Longrightarrow> grows cfg c c'"
    and eq: "equals_Slice rec cfg w a b c = Inr c'"
  shows "grows cfg c c'"
proof -
  have L: "grows cfg c (state_of r)"
    if loop: "for_each (Slice_index rec cfg w a b aLen bLen) xs c = Inr r" for aLen bLen xs r
  proof -
    have "case r of Next x' \<Rightarrow> below cfg c x' | Break x' \<Rightarrow> grows cfg c x'"
      by (rule for_each_inv [OF loop, where I = "below cfg c"])
        (simp_all add: Slice_index_grows [OF rec])
    then show ?thesis by (rule loop_result_grows)
  qed
  show ?thesis
    using eq unfolding equals_Slice_def
    by (auto simp: andThen_eq_Inr Let_def split: if_splits dest!: L)
qed

lemma equals_switch_grows:
  assumes rec: "\<And>x y c c'. rec x y c = Inr c' \<Longrightarrow> grows cfg c c'"
    and "equals_switch rec cfg w a b k t c = Inr c'"
  shows "grows cfg c c'"
  using assms(2) equals_Struct_grows [OF rec] equals_Map_grows [OF rec] equals_Slice_grows [OF rec]
  unfolding equals_switch_def
  by (cases k) (auto simp: andThen_eq_Inr split: if_splits)

lemma level_induct:
  fixes level :: int
  assumes "\<And>level. (level \<le> M \<Longrightarrow> P (level + 1)) \<Longrightarrow> P level"
  shows "P level"
proof (induction "nat (M + 1 - level)" arbitrary: level rule: less_induct)
  case less
  show ?case
  proof (rule assms)
    assume "level \<le> M"
    then show "P (level + 1)" by (intro less) simp
  qed
qed

lemma equals_grows: "equals cfg w a b level c = Inr c' \<Longrightarrow> grows cfg c c'"
proof (induction level arbitrary: a b c c' rule: level_induct [where M = "MaxDepth cfg"])
  case (1 level)
  note eq = "1.prems"
  show ?case
  proof (cases "MaxDepth cfg < level")
    case True
    with eq show ?thesis by (auto simp: equals.simps)
  next
    case False
    then have rec: "\<And>x y c c'. equals cfg w x y (level + 1) c = Inr c' \<Longrightarrow> grows cfg c c'"
      using "1.IH" by simp
    from eq False obtain ta tb where ty: "Type a = Inr ta" "Type b = Inr tb"
      by (subst (asm) equals.simps) (auto simp: andThen_eq_Inr)
    show ?thesis
    proof (cases "ta = tb")
      case False
      with eq \<open>\<not> MaxDepth cfg < level\<close> ty show ?thesis
        by (subst (asm) equals.simps) auto
    next
      case True
      with eq \<open>\<not> MaxDepth cfg < level\<close> ty obtain a' ka ta' b' kb tb'
        where un: "unwrap w a (Kind a) ta = Inr (a', ka, ta')" "unwrap w b (Kind b) ta = Inr (b', kb, tb')"
        by (subst (asm) equals.simps) (auto simp: andThen_eq_Inr)
      show ?thesis
      proof (cases "IsValid a' \<and> IsValid b'")
        case False
        with eq \<open>\<not> MaxDepth cfg < level\<close> ty True un show ?thesis
          by (subst (asm) equals.simps) (auto split: if_splits)
      next
        case valid: True
        with eq \<open>\<not> MaxDepth cfg < level\<close> ty True un
        have "andThen (MethodByName_Equal w a') (\<lambda>eqFunc.
           case eqFunc of
             Some m \<Rightarrow> andThen (Call_Equal m a' b') (\<lambda>r.
               Inr (if \<not> r then saveDiff w (Value_arg a') (Value_arg b') c else c))
           | None \<Rightarrow> equals_switch (\<lambda>x y c. equals cfg w x y (level + 1) c) cfg w a' b' ka ta' c)
           = Inr c'"
          by (simp add: equals_reach [where a' = a' and b' = b'])
        moreover have "grows cfg c c'"
          if "equals_switch (\<lambda>x y c. equals cfg w x y (level + 1) c) cfg w a' b' ka ta' c = Inr c'"
          using rec that by (rule equals_switch_grows)
        ultimately show ?thesis
          by (auto simp: andThen_eq_Inr split: option.splits if_splits)
      qed
    qed
  qed
qed


subsection \<open>The cap on the number of records\<close>

lemma Equal_MaxDiff:
  assumes "1 \<le> MaxDiff cfg" "Equal cfg w a b = Inr ds"
  shows "int (length ds) \<le> MaxDiff cfg"
proof -
  from assms(2) obtain c' where
    "equals cfg w (ValueOf a) (ValueOf b) 0
       \<lparr>diff = [], buff = [], floatFormat = FloatPrecision cfg, logged = []\<rparr> = Inr c'"
    and ds: "ds = diff c'"
    by (auto simp: Equal_def andThen_eq_Inr split: if_splits)
  from equals_grows [OF this(1)] assms(1) ds show ?thesis
    by (simp add: grows_def)
qed

text \<open>A flat pair is compared by its case of the \<^verbatim>\<open>switch\<close> alone.\<close>

lemma equals_flat_pair:
  assumes "flat_pair x y" "method_Equal w (dtype x) = None" "level \<le> MaxDepth cfg"
  shows "\<exists>c'. equals cfg w (Val f x) (Val g y) level c = Inr c' \<and> buff c' = buff c
           \<and> floatFormat c' = floatFormat c
           \<and> length (diff c') = length (diff c) + (if leaf_differs (floatFormat c) x y then 1 else 0)"
proof -
  have r: "equals cfg w (Val f x) (Val g y) level c =
      equals_switch (\<lambda>x y c. equals cfg w x y (level + 1) c) cfg w (Val f x) (Val g y) (dkind x) (dtype x) c"
    using assms
    by (auto simp: flat_pair_def equals_reach [where a' = "Val f x" and b' = "Val g y" and t = "dtype x"
          and ka = "dkind x" and ta = "dtype x" and kb = "dkind x" and tb = "dtype x"] unwrap_def)
  from assms(1) show ?thesis unfolding r
    by (cases x; cases y; simp add: flat_pair_def equals_switch_def leaf_differs_def)
qed

text \<open>The loop over the fields of two flat records, from any state below the cap.\<close>

lemma Struct_loop_flat:
  assumes flat: "flat_records w t xs ys" and depth: "level + 1 \<le> MaxDepth cfg"
    and "set js \<subseteq> {..<length xs}"
    and "int (length (diff c)) < MaxDiff cfg" "floatFormat c = FloatPrecision cfg"
  shows "\<exists>r. for_each (Struct_field (\<lambda>x y c. equals cfg w x y (level + 1) c) cfg
                 (Val f (StructD t xs)) (Val g (StructD t ys)) t) js c = Inr r
           \<and> floatFormat (state_of r) = floatFormat c
           \<and> int (length (diff (state_of r))) =
               min (MaxDiff cfg)
                 (int (length (diff c)) +
                  int (length (filter (\<lambda>i. compared cfg t i \<and>
                     leaf_differs (FloatPrecision cfg) (xs ! i) (ys ! i)) js)))"
  using assms(3-)
proof (induction js arbitrary: c)
  case Nil
  then show ?case by simp
next
  case (Cons i js)
  let ?rec = "\<lambda>x y c. equals cfg w x y (level + 1) c"
  let ?D = "\<lambda>i. compared cfg t i \<and> leaf_differs (FloatPrecision cfg) (xs ! i) (ys ! i)"
  from Cons.prems flat have i: "i < length xs" "i < length ys" "i < length (type_fields t)"
    and fp: "flat_pair (xs ! i) (ys ! i)" "method_Equal w (dtype (xs ! i)) = None"
    and js: "set js \<subseteq> {..<length xs}"
    by (auto simp: flat_records_def list_all2_conv_all_nth)
  show ?case
  proof (cases "compared cfg t i")
    case False
    then have "Struct_field ?rec cfg (Val f (StructD t xs)) (Val g (StructD t ys)) t i c = Inr (Next c)"
      using i by (simp add: Struct_field_def Type_Field_def compared_def)
    with Cons.IH [OF js Cons.prems(2,3)] False show ?thesis by simp
  next
    case True
    obtain af bf where af: "Field (Val f (StructD t xs)) i = Inr (Val af (xs ! i))"
      and bf: "Field (Val g (StructD t ys)) i = Inr (Val bf (ys ! i))"
      using i by simp
    from equals_flat_pair [OF fp, of "level + 1" cfg af bf "push (Name (type_fields t ! i)) c"] depth
    obtain c2 where c2: "equals cfg w (Val af (xs ! i)) (Val bf (ys ! i)) (level + 1)
          (push (Name (type_fields t ! i)) c) = Inr c2"
      and b2: "floatFormat c2 = floatFormat c"
      and d2: "length (diff c2) = length (diff c) +
          (if leaf_differs (floatFormat c) (xs ! i) (ys ! i) then 1 else 0)"
      by auto
    have body: "Struct_field ?rec cfg (Val f (StructD t xs)) (Val g (StructD t ys)) t i c
        = check_MaxDiff cfg (pop c2)"
      using i True af bf c2 by (auto simp: Struct_field_def Type_Field_def compared_def)
    show ?thesis
    proof (cases "int (length (diff c2)) \<ge> MaxDiff cfg")
      case stop: True
      with body have "Struct_field ?rec cfg (Val f (StructD t xs)) (Val g (StructD t ys)) t i c
          = Inr (Break (pop c2))"
        by (simp add: check_MaxDiff_def)
      with stop b2 d2 True Cons.prems(2,3) show ?thesis
        by (auto split: if_splits)
    next
      case go: False
      with body have "Struct_field ?rec cfg (Val f (StructD t xs)) (Val g (StructD t ys)) t i c
          = Inr (Next (pop c2))"
        by (simp add: check_MaxDiff_def)
      then have step: "for_each (Struct_field ?rec cfg (Val f (StructD t xs)) (Val g (StructD t ys)) t)
          (i # js) c = for_each (Struct_field ?rec cfg (Val f (StructD t xs)) (Val g (StructD t ys)) t)
          js (pop c2)"
        by simp
      from go b2 Cons.prems(3)
      have "int (length (diff (pop c2))) < MaxDiff cfg" "floatFormat (pop c2) = FloatPrecision cfg"
        by simp_all
      from Cons.IH [OF js this] obtain r where
        r: "for_each (Struct_field ?rec cfg (Val f (StructD t xs)) (Val g (StructD t ys)) t)
          js (pop c2) = Inr r"
        and fr: "floatFormat (state_of r) = floatFormat (pop c2)"
        and dr: "int (length (diff (state_of r))) =
           min (MaxDiff cfg) (int (length (diff (pop c2))) + int (length (filter ?D js)))"
        by blast
      have "int (length (diff (pop c2))) + int (length (filter ?D js))
          = int (length (diff c)) + int (length (filter ?D (i # js)))"
        using d2 True Cons.prems(3) by simp
      with r fr dr b2 show ?thesis
        unfolding step by auto
    qed
  qed
qed


lemma Equal_flat_records:
  assumes "1 \<le> MaxDiff cfg" "1 \<le> MaxDepth cfg" "flat_records w t xs ys"
  shows "\<exists>ds. Equal cfg w (Some (StructD t xs)) (Some (StructD t ys)) = Inr ds
           \<and> int (length ds) = min (MaxDiff cfg) (int (length (differing_fields cfg t xs ys)))"
proof -
  let ?c = "\<lparr>diff = [], buff = [], floatFormat = FloatPrecision cfg, logged = []\<rparr>"
  let ?a = "Val Exported (StructD t xs)" and ?b = "Val Exported (StructD t ys)"
  from assms(3) have m: "method_Equal w t = None" and len: "length ys = length xs"
    by (auto simp: flat_records_def list_all2_lengthD)
  have "\<exists>r. for_each (Struct_field (\<lambda>x y c. equals cfg w x y (0 + 1) c) cfg ?a ?b t)
            [0..<length xs] ?c = Inr r
           \<and> floatFormat (state_of r) = floatFormat ?c
           \<and> int (length (diff (state_of r))) =
               min (MaxDiff cfg)
                 (int (length (diff ?c)) +
                  int (length (filter (\<lambda>i. compared cfg t i \<and>
                     leaf_differs (FloatPrecision cfg) (xs ! i) (ys ! i)) [0..<length xs])))"
    by (rule Struct_loop_flat [OF assms(3)]) (use assms(1,2) in auto)
  then obtain r where
    r: "for_each (Struct_field (\<lambda>x y c. equals cfg w x y (0 + 1) c) cfg ?a ?b t) [0..<length xs] ?c = Inr r"
    and d: "int (length (diff (state_of r))) =
       min (MaxDiff cfg) (int (length (differing_fields cfg t xs ys)))"
    by (auto simp: differing_fields_def)
  have "equals cfg w ?a ?b 0 ?c = Inr (state_of r)"
    using assms(2) m r
    by (simp add: equals_reach [where a' = ?a and b' = ?b and t = t and ka = StructK and ta = t
          and kb = StructK and tb = t] unwrap_def equals_switch_def equals_Struct_def)
  then show ?thesis using d by (auto simp: Equal_def)
qed

text \<open>
  C3, as amended. With \<open>MaxDiff\<close> at least 1, a result of \<open>Equal\<close> never has more than
  \<open>MaxDiff\<close> records. And for two flat records of one type of which at least \<open>MaxDiff\<close>
  compared fields differ, \<open>Equal\<close> returns exactly \<open>MaxDiff\<close> records, provided
  \<open>MaxDepth\<close> is at least 1, so that the fields, one level down, are compared at all.
\<close>

theorem Equal_MaxDiff_cap:
  assumes "1 \<le> MaxDiff cfg"
  shows "(Equal cfg w a b = Inr ds \<longrightarrow> int (length ds) \<le> MaxDiff cfg)
       \<and> (1 \<le> MaxDepth cfg \<and> flat_records w t xs ys
            \<and> MaxDiff cfg \<le> int (length (differing_fields cfg t xs ys)) \<longrightarrow>
          (\<exists>ds'. Equal cfg w (Some (StructD t xs)) (Some (StructD t ys)) = Inr ds'
              \<and> int (length ds') = MaxDiff cfg))"
proof (intro conjI impI)
  assume "Equal cfg w a b = Inr ds"
  with assms show "int (length ds) \<le> MaxDiff cfg" by (rule Equal_MaxDiff)
next
  assume h: "1 \<le> MaxDepth cfg \<and> flat_records w t xs ys
      \<and> MaxDiff cfg \<le> int (length (differing_fields cfg t xs ys))"
  with Equal_flat_records [OF assms, of w t xs ys]
  show "\<exists>ds'. Equal cfg w (Some (StructD t xs)) (Some (StructD t ys)) = Inr ds'
      \<and> int (length ds') = MaxDiff cfg"
    by auto
qed

lemma Person_flat:
  "flat_records ex T_Person [StringD T_string n, IntD T_int i] [StringD T_string m, IntD T_int j]"
  by (simp add: flat_records_def flat_pair_def ex_def T_defs)

lemma Person_differing:
  "differing_fields cfg T_Person [StringD T_string ''Bob'', IntD T_int 30]
     [StringD T_string ''Alice'', IntD T_int 31] = [0, 1]"
  by (simp add: differing_fields_def compared_def leaf_differs_def T_defs upt_rec)

lemma Equal_Person_one:
  "Equal (default_config\<lparr>MaxDiff := 1\<rparr>) ex
      (Some (StructD T_Person [StringD T_string ''Bob'', IntD T_int 30]))
      (Some (StructD T_Person [StringD T_string ''Alice'', IntD T_int 31])) = Inr [''Name: Bob != Alice'']"
  by code_simp

theorem Equal_MaxDiff_cap_witness:
  "1 \<le> MaxDiff (default_config\<lparr>MaxDiff := 1\<rparr>) \<and> 1 \<le> MaxDepth (default_config\<lparr>MaxDiff := 1\<rparr>)
   \<and> flat_records ex T_Person [StringD T_string ''Bob'', IntD T_int 30]
        [StringD T_string ''Alice'', IntD T_int 31]
   \<and> length (differing_fields (default_config\<lparr>MaxDiff := 1\<rparr>) T_Person
        [StringD T_string ''Bob'', IntD T_int 30] [StringD T_string ''Alice'', IntD T_int 31]) = 2
   \<and> Equal (default_config\<lparr>MaxDiff := 1\<rparr>) ex
        (Some (StructD T_Person [StringD T_string ''Bob'', IntD T_int 30]))
        (Some (StructD T_Person [StringD T_string ''Alice'', IntD T_int 31])) = Inr [''Name: Bob != Alice'']
   \<and> int (length [''Name: Bob != Alice'']) \<le> MaxDiff (default_config\<lparr>MaxDiff := 1\<rparr>)"
  using Equal_MaxDiff_cap [of "default_config\<lparr>MaxDiff := 1\<rparr>" ex
      "Some (StructD T_Person [StringD T_string ''Bob'', IntD T_int 30])"
      "Some (StructD T_Person [StringD T_string ''Alice'', IntD T_int 31])"
      "[''Name: Bob != Alice'']" T_Person
      "[StringD T_string ''Bob'', IntD T_int 30]" "[StringD T_string ''Alice'', IntD T_int 31]"]
    Person_flat Person_differing Equal_Person_one
  by (simp add: default_config_def)

text \<open>
  C3 as stated fails when \<open>MaxDepth\<close> is 0: the fields of a record are at level 1 and
  are abandoned, so two records that differ in one field give no record at all, though
  \<open>MaxDiff\<close> is 1.
\<close>

theorem MaxDiff_cap_counterexample:
  "1 \<le> MaxDiff (default_config\<lparr>MaxDiff := 1, MaxDepth := 0\<rparr>)
   \<and> flat_records ex T_Person [StringD T_string ''Alice'', IntD T_int 30]
        [StringD T_string ''Alice'', IntD T_int 31]
   \<and> MaxDiff (default_config\<lparr>MaxDiff := 1, MaxDepth := 0\<rparr>)
        \<le> int (length (differing_fields (default_config\<lparr>MaxDiff := 1, MaxDepth := 0\<rparr>) T_Person
             [StringD T_string ''Alice'', IntD T_int 30] [StringD T_string ''Alice'', IntD T_int 31]))
   \<and> Equal (default_config\<lparr>MaxDiff := 1, MaxDepth := 0\<rparr>) ex
        (Some (StructD T_Person [StringD T_string ''Alice'', IntD T_int 30]))
        (Some (StructD T_Person [StringD T_string ''Alice'', IntD T_int 31])) = Inr []"
proof -
  have "Equal (default_config\<lparr>MaxDiff := 1, MaxDepth := 0\<rparr>) ex
        (Some (StructD T_Person [StringD T_string ''Alice'', IntD T_int 30]))
        (Some (StructD T_Person [StringD T_string ''Alice'', IntD T_int 31])) = Inr []"
    by code_simp
  moreover have "differing_fields (default_config\<lparr>MaxDiff := 1, MaxDepth := 0\<rparr>) T_Person
             [StringD T_string ''Alice'', IntD T_int 30] [StringD T_string ''Alice'', IntD T_int 31] = [1]"
    by (simp add: differing_fields_def compared_def leaf_differs_def T_defs upt_rec)
  ultimately show ?thesis
    using Person_flat by (simp add: default_config_def)
qed

text \<open>The specification's scenario: one record, \<^verbatim>\<open>Age: 30 != 31\<close>.\<close>

lemma Equal_Person_Age:
  "Equal default_config ex (Some (StructD T_Person [StringD T_string ''Alice'', IntD T_int 30]))
      (Some (StructD T_Person [StringD T_string ''Alice'', IntD T_int 31])) = Inr [''Age: 30 != 31'']"
  by code_simp


subsection \<open>Comparing a value with itself\<close>

lemma for_each_total:
  assumes "I c"
    and "\<And>i x. i \<in> set xs \<Longrightarrow> I x \<Longrightarrow> \<exists>r. body i x = Inr r \<and> I (state_of r)"
  shows "\<exists>r. for_each body xs c = Inr r \<and> I (state_of r)"
  using assms
proof (induction xs arbitrary: c)
  case Nil
  then show ?case by simp
next
  case (Cons i "is")
  from Cons.prems obtain r' where r': "body i c = Inr r'" "I (state_of r')"
    by (meson list.set_intros(1))
  show ?case
  proof (cases r')
    case (Next c')
    with r' have "I c'" by simp
    from Cons.IH [OF this] Cons.prems(2) obtain r where "for_each body is c' = Inr r" "I (state_of r)"
      by (meson list.set_intros(2))
    with r' Next show ?thesis by auto
  next
    case (Break c')
    with r' show ?thesis by auto
  qed
qed

lemma untouched_refl [simp]: "untouched c c"
  by (simp add: untouched_def)

lemma untouched_logError [simp]: "untouched c (logError cfg e x) = untouched c x"
  by (simp add: untouched_def)

lemma unwrap_wf:
  assumes "wf_world w" "wf_data d"
  obtains (nil) t where "unwrap w (Val f d) (dkind d) (dtype d) = Inr (Zero, InvalidK, t)"
  | (val) f' d' where "unwrap w (Val f d) (dkind d) (dtype d) = Inr (Val f' d', dkind d', dtype d')"
      "wf_data d'"
proof (cases d)
  case (PtrD t p)
  with assms nil [of t] val [of f "deref w p"] show ?thesis
    by (cases "p = 0") (simp_all add: unwrap_def wf_world_def)
next
  case (IfaceD t x)
  with assms nil [of t] val [of "ro f"] show ?thesis
    by (cases x) (simp_all add: unwrap_def)
qed (use assms val [of f d] in \<open>simp_all add: unwrap_def\<close>)

lemma Struct_field_refl:
  assumes rec: "\<And>f d c. wf_data d \<Longrightarrow> \<exists>c'. rec (Val f d) (Val f d) c = Inr c' \<and> untouched c c'"
    and wf: "wf_data (StructD t fs)" and i: "i < length fs" and I: "untouched c x"
  shows "\<exists>r. Struct_field rec cfg (Val f (StructD t fs)) (Val f (StructD t fs)) t i x = Inr r
           \<and> untouched c (state_of r)"
proof (cases "PkgPath (type_fields t ! i) \<noteq> [] \<and> \<not> CompareUnexportedFields cfg")
  case True
  with wf i I show ?thesis by (simp add: Struct_field_def Type_Field_def)
next
  case False
  from wf i obtain fi where fi: "Field (Val f (StructD t fs)) i = Inr (Val fi (fs ! i))"
    and wfi: "wf_data (fs ! i)"
    by simp
  from rec [OF wfi, of fi "push (Name (type_fields t ! i)) x"] obtain x2 where
    x2: "rec (Val fi (fs ! i)) (Val fi (fs ! i)) (push (Name (type_fields t ! i)) x) = Inr x2"
    and u: "untouched (push (Name (type_fields t ! i)) x) x2"
    by blast
  have body: "Struct_field rec cfg (Val f (StructD t fs)) (Val f (StructD t fs)) t i x
      = check_MaxDiff cfg (pop x2)"
    using False wf i fi x2 by (auto simp: Struct_field_def Type_Field_def)
  from u I have "untouched c (pop x2)"
    by (simp add: untouched_def)
  then show ?thesis unfolding body
    by (simp add: check_MaxDiff_def)
qed

lemma equals_switch_refl:
  assumes rec: "\<And>f d c. wf_data d \<Longrightarrow> \<exists>c'. rec (Val f d) (Val f d) c = Inr c' \<and> untouched c c'"
    and wf: "wf_data d"
  shows "\<exists>c'. equals_switch rec cfg w (Val f d) (Val f d) (dkind d) (dtype d) c = Inr c'
           \<and> untouched c c'"
proof (cases d)
  case (StructD t fs)
  have "\<exists>r. for_each (Struct_field rec cfg (Val f (StructD t fs)) (Val f (StructD t fs)) t)
          [0..<length fs] c = Inr r \<and> untouched c (state_of r)"
    by (rule for_each_total [where I = "untouched c"])
      (use wf StructD in \<open>auto intro: Struct_field_refl [where rec = rec, OF rec]\<close>)
  with StructD show ?thesis
    by (auto simp: equals_switch_def equals_Struct_def)
qed (simp_all add: equals_switch_def equals_Map_def equals_Slice_def)

lemma equals_refl:
  assumes w: "wf_world w" "no_Equal_methods w"
  shows "wf_data d \<Longrightarrow> \<exists>c'. equals cfg w (Val f d) (Val f d) level c = Inr c' \<and> untouched c c'"
proof (induction level arbitrary: f d c rule: level_induct [where M = "MaxDepth cfg"])
  case (1 level)
  show ?case
  proof (cases "MaxDepth cfg < level")
    case True
    then show ?thesis by (simp add: equals.simps)
  next
    case False
    then have rec: "\<And>f d c. wf_data d \<Longrightarrow>
        \<exists>c'. equals cfg w (Val f d) (Val f d) (level + 1) c = Inr c' \<and> untouched c c'"
      using "1.IH" by simp
    from w(1) "1.prems" show ?thesis
    proof (cases rule: unwrap_wf [where f = f])
      case (nil t)
      with False show ?thesis
        by (subst equals.simps) simp
    next
      case (val f' d')
      have m: "MethodByName_Equal w (Val f' d') = Inr None"
        using w(2) by (simp add: no_Equal_methods_def)
      have "equals cfg w (Val f d) (Val f d) level c =
          equals_switch (\<lambda>x y c. equals cfg w x y (level + 1) c) cfg w (Val f' d') (Val f' d')
            (dkind d') (dtype d') c"
        using False val(1) m
        by (simp add: equals_reach [where a' = "Val f' d'" and b' = "Val f' d'" and t = "dtype d"
              and ka = "dkind d'" and ta = "dtype d'" and kb = "dkind d'" and tb = "dtype d'"])
      with equals_switch_refl [of "\<lambda>x y c. equals cfg w x y (level + 1) c", OF rec val(2)]
      show ?thesis by simp
    qed
  qed
qed








subsection \<open>Maps\<close>

lemma record_of_buff: "buff c1 = buff c2 \<Longrightarrow> record_of w u v c1 = record_of w u v c2"
  by (simp add: record_of_def)

lemma ro_idem: "(if f = Exported \<and> ro f = Exported then Exported else StickyRO) = ro f"
  by (cases f) simp_all







text \<open>The specification's scenario, \<^verbatim>\<open>{"a": 1, "b": 2}\<close> against \<^verbatim>\<open>{"a": 1}\<close>, both ways.\<close>

lemma Equal_maps_a_b:
  "Equal default_config ex_plain (Some (MapD T_map 10)) (Some (MapD T_map 11))
     = Inr [''map[b]: 2 != <does not have key>'']"
  "Equal default_config ex_plain (Some (MapD T_map 11)) (Some (MapD T_map 10))
     = Inr [''map[b]: <does not have key> != 2'']"
  by code_simp+



subsection \<open>Slices\<close>

text \<open>
  C6. Two slices of one array, \<^verbatim>\<open>s[:2]\<close> and \<^verbatim>\<open>s[:3]\<close>, have the same first element, so
  \<^verbatim>\<open>a.Pointer() == b.Pointer()\<close> makes \<open>equals\<close> return before the loop: no record
  for the third element, which only the longer one has.
\<close>

theorem Equal_slices_of_one_array:
  "Equal default_config ex (Some (SliceD T_slice 20 2)) (Some (SliceD T_slice 20 3)) = Inr []"
  by code_simp

text \<open>
  With different first elements the loop runs to the greater length: the slices
  \<^verbatim>\<open>[20 21]\<close> and \<^verbatim>\<open>[30 31 32]\<close> give three records, the last one for the element that
  only the longer slice has.
\<close>

lemma Equal_slices_longer:
  "Equal default_config ex (Some (SliceD T_slice 20 2)) (Some (SliceD T_slice 30 3))
     = Inr [''slice[0]: 20 != 30'', ''slice[1]: 21 != 31'', ''slice[2]: <no value> != 32'']"
  by code_simp

text \<open>
  In general: two non-nil slices with different first elements that agree on their
  common indices, in a program without \<open>Equal\<close> methods and with room under \<open>MaxDiff\<close>,
  get exactly one record for each index that only the longer one has.
\<close>

lemma Slice_loop:
  assumes rec: "\<And>f d c. wf_data d \<Longrightarrow> \<exists>c'. rec (Val f d) (Val f d) c = Inr c' \<and> untouched c c'"
    and wf: "\<forall>i. wf_data (array_at w p i)"
    and same: "\<forall>i. i < n \<and> i < m \<longrightarrow> array_at w q i = array_at w p i"
    and js: "set js \<subseteq> {..<max n m}"
    and x: "buff x = buff c"
    and budget: "int (length (diff x)) + int (length (filter (\<lambda>j. \<not> (j < n \<and> j < m)) js)) \<le> MaxDiff cfg"
  shows "\<exists>r. for_each (Slice_index rec cfg w (Val f (SliceD t p n)) (Val f (SliceD t q m)) n m) js x = Inr r
           \<and> buff (state_of r) = buff c
           \<and> diff (state_of r) = diff x @ map (trailing w f c p n q m) (filter (\<lambda>j. \<not> (j < n \<and> j < m)) js)"
  using js x budget
proof (induction js arbitrary: x)
  case Nil
  then show ?case by simp
next
  case (Cons j js)
  let ?a = "Val f (SliceD t p n)" and ?b = "Val f (SliceD t q m)"
  let ?seg = "''slice['' @ dec j @ '']''"
  let ?T = "\<lambda>j. \<not> (j < n \<and> j < m)"
  from Cons.prems(1) have j: "j < max n m" and js: "set js \<subseteq> {..<max n m}"
    by simp_all
  have "\<exists>x2. Slice_index rec cfg w ?a ?b n m j x = check_MaxDiff cfg (pop x2)
      \<and> buff (pop x2) = buff c
      \<and> diff (pop x2) = diff x @ map (trailing w f c p n q m) (filter ?T [j])"
  proof (cases "j < n \<and> j < m")
    case True
    from wf have "wf_data (array_at w p j)" by simp
    from rec [OF this, of "ro f" "push ?seg x"] obtain x2 where
      x2: "rec (Val (ro f) (array_at w p j)) (Val (ro f) (array_at w p j)) (push ?seg x) = Inr x2"
      and u: "untouched (push ?seg x) x2"
      by blast
    from True same x2 have "Slice_index rec cfg w ?a ?b n m j x = check_MaxDiff cfg (pop x2)"
      by (simp add: Slice_index_def)
    with u True Cons.prems(2) show ?thesis
      by (auto simp: untouched_def)
  next
    case False
    show ?thesis
    proof (cases "j < n")
      case True
      with False Cons.prems(2) show ?thesis
        by (auto simp: Slice_index_def trailing_def record_of_def intro!: exI)
    next
      case n: False
      with j have "j < m" by simp
      with n False Cons.prems(2) show ?thesis
        by (auto simp: Slice_index_def trailing_def record_of_def intro!: exI)
    qed
  qed
  then obtain x2 where body: "Slice_index rec cfg w ?a ?b n m j x = check_MaxDiff cfg (pop x2)"
    and b2: "buff (pop x2) = buff c"
    and d2: "diff (pop x2) = diff x @ map (trailing w f c p n q m) (filter ?T [j])"
    by blast
  have l2: "length (diff (pop x2)) = length (diff x) + length (filter ?T [j])"
    using d2 by simp
  have lf: "length (filter ?T (j # js)) = length (filter ?T [j]) + length (filter ?T js)"
    by simp
  show ?case
  proof (cases "int (length (diff (pop x2))) \<ge> MaxDiff cfg")
    case True
    with Cons.prems(3) l2 lf have "length (filter ?T js) = 0"
      by linarith
    then have "filter ?T js = []" by simp
    then have "filter ?T (j # js) = filter ?T [j]" by simp
    with True body b2 d2 show ?thesis
      by (simp add: check_MaxDiff_def del: filter.simps)
  next
    case False
    then have step: "Slice_index rec cfg w ?a ?b n m j x = Inr (Next (pop x2))"
      using body by (simp add: check_MaxDiff_def)
    have "int (length (diff (pop x2))) + int (length (filter ?T js)) \<le> MaxDiff cfg"
      using Cons.prems(3) l2 lf by linarith
    from Cons.IH [OF js b2 this] obtain r where
      r: "for_each (Slice_index rec cfg w ?a ?b n m) js (pop x2) = Inr r"
      and br: "buff (state_of r) = buff c"
      and dr: "diff (state_of r) = diff (pop x2) @ map (trailing w f c p n q m) (filter ?T js)"
      by blast
    have "filter ?T (j # js) = filter ?T [j] @ filter ?T js" by simp
    with step r br dr d2 show ?thesis
      by (simp del: filter.simps)
  qed
qed

lemma equals_Slice_trailing:
  assumes w: "wf_world w" "no_Equal_methods w" and depth: "level \<le> MaxDepth cfg"
    and ptr: "p \<noteq> 0" "q \<noteq> 0" "p \<noteq> q"
    and same: "\<forall>i. i < n \<and> i < m \<longrightarrow> array_at w q i = array_at w p i"
    and budget: "int (length (diff c)) + int (max n m - min n m) \<le> MaxDiff cfg"
  shows "\<exists>c'. equals cfg w (Val f (SliceD t p n)) (Val f (SliceD t q m)) level c = Inr c'
           \<and> buff c' = buff c
           \<and> diff c' = diff c @ map (trailing w f c p n q m) [min n m..<max n m]"
proof -
  let ?a = "Val f (SliceD t p n)" and ?b = "Val f (SliceD t q m)"
  let ?rec = "\<lambda>x y c. equals cfg w x y (level + 1) c"
  let ?T = "\<lambda>j. \<not> (j < n \<and> j < m)"
  have m: "MethodByName_Equal w ?a = Inr None"
    using w(2) by (simp add: no_Equal_methods_def)
  have sw: "equals cfg w ?a ?b level c = equals_Slice ?rec cfg w ?a ?b c"
    using depth m
    by (simp add: equals_reach [where a' = ?a and b' = ?b and t = t and ka = SliceK and ta = t
          and kb = SliceK and tb = t] unwrap_def equals_switch_def)
  have wfv: "\<forall>i. wf_data (array_at w p i)"
    using w(1) by (simp add: wf_world_def)
  have "[0..<min n m + (max n m - min n m)] =
      [0..<min n m] @ [min n m..<min n m + (max n m - min n m)]"
    by (rule upt_add_eq_append) simp
  moreover have "min n m + (max n m - min n m) = max n m"
    by arith
  ultimately have "[0..<max n m] = [0..<min n m] @ [min n m..<max n m]"
    by simp
  then have f: "filter ?T [0..<max n m] = [min n m..<max n m]"
    by (auto simp: filter_empty_conv filter_id_conv)
  have "\<exists>r. for_each (Slice_index ?rec cfg w ?a ?b n m) [0..<max n m] c = Inr r
           \<and> buff (state_of r) = buff c
           \<and> diff (state_of r) = diff c @ map (trailing w f c p n q m) (filter ?T [0..<max n m])"
    by (rule Slice_loop [where rec = ?rec, OF equals_refl [OF w] wfv same]) (use budget f in auto)
  then obtain r where "for_each (Slice_index ?rec cfg w ?a ?b n m) [0..<max n m] c = Inr r"
    and "buff (state_of r) = buff c"
    and "diff (state_of r) = diff c @ map (trailing w f c p n q m) [min n m..<max n m]"
    using f by auto
  moreover have "(if n < m then m else n) = max n m" by simp
  ultimately show ?thesis
    using ptr unfolding sw by (simp add: equals_Slice_def Let_def del: max.absorb1 max.absorb2 max.absorb3 max.absorb4)
qed


end
